theory Spec2Isabelle
  imports Complex_Main
begin

section \<open>Local evaluation helper of real\_robots: \<^verbatim>\<open>real_robots/evaluate.py\<close>\<close>

text \<open>
  The module has two functions: \<^verbatim>\<open>build_score_object\<close>, which averages the recorded
  scores of the three challenges, and \<^verbatim>\<open>evaluate\<close>, which drives a controller through
  the intrinsic and the extrinsic phase of an environment and records one score per
  extrinsic trial.

  Numbers: Python floats are read as real numbers (no rounding). The one float that is
  not a number and that the module can produce, the \<^verbatim>\<open>nan\<close> that \<^verbatim>\<open>np.mean\<close> returns on an
  empty sequence, is kept as a value of its own.
\<close>

subsection \<open>Score aggregation\<close>

datatype npfloat = Num real | NaN

text \<open>\<^verbatim>\<open>a + b\<close> and \<^verbatim>\<open>a / b\<close> on floats: \<^verbatim>\<open>nan\<close> is absorbing. The divisor of the module is
  \<^verbatim>\<open>len(challenges)\<close>, a positive integer.\<close>

fun np_add :: "npfloat \<Rightarrow> npfloat \<Rightarrow> npfloat" where
  "np_add (Num a) (Num b) = Num (a + b)"
| "np_add _ _ = NaN"

fun np_div :: "npfloat \<Rightarrow> nat \<Rightarrow> npfloat" where
  "np_div (Num a) n = Num (a / real n)"
| "np_div NaN n = NaN"

text \<open>\<^verbatim>\<open>np.mean(results)\<close> on a list of numbers: the sum over the length, and \<^verbatim>\<open>nan\<close>
  (with a warning, no exception) on the empty list.\<close>

definition np_mean :: "real list \<Rightarrow> npfloat" where
  "np_mean results =
     (if results = [] then NaN else Num (sum_list results / real (length results)))"

text \<open>The dictionary \<^verbatim>\<open>scores\<close>: challenge name to the list of scores recorded for it.\<close>

type_synonym ledger = "string \<rightharpoonup> real list"

type_synonym score_dict = "string \<rightharpoonup> npfloat"

definition challenges :: "string list" where
  "challenges = [''2D'', ''2.5D'', ''3D'']"

text \<open>The variables of one call of \<^verbatim>\<open>build_score_object\<close>: the argument \<^verbatim>\<open>scores\<close>
  (a dictionary passed by reference, so what the call does to it is what the caller
  sees afterwards) and the locals \<^verbatim>\<open>total_score\<close>, \<^verbatim>\<open>results\<close>, \<^verbatim>\<open>score_object\<close>.\<close>

record frame =
  arg_scores :: ledger
  total_score :: npfloat
  results :: "real list"
  score_object :: score_dict

text \<open>One iteration of \<^verbatim>\<open>for key in challenges\<close>.\<close>

definition challenge_body :: "string \<Rightarrow> frame \<Rightarrow> frame" where
  "challenge_body key f =
     (case arg_scores f key of
        Some rs \<Rightarrow>
          let challenge_score = np_mean rs in
          f\<lparr>results := rs,
            total_score := np_add (total_score f) challenge_score,
            score_object := (score_object f)(''score_'' @ key \<mapsto> challenge_score)\<rparr>
      | None \<Rightarrow>
          let challenge_score = Num 0 in
          f\<lparr>results := [],
            total_score := np_add (total_score f) challenge_score,
            score_object := (score_object f)(''score_'' @ key \<mapsto> challenge_score)\<rparr>)"

text \<open>The whole body, up to the \<^verbatim>\<open>return\<close>: the frame when the function returns.\<close>

definition build_score_object_frame :: "ledger \<Rightarrow> frame" where
  "build_score_object_frame scores =
     (let f0 = \<lparr>arg_scores = scores, total_score = Num 0, results = [],
                score_object = Map.empty\<rparr>;
          f1 = fold challenge_body challenges f0;
          f2 = f1\<lparr>total_score := np_div (total_score f1) (length challenges)\<rparr>
      in f2\<lparr>score_object := (score_object f2)(''score_total'' \<mapsto> total_score f2)\<rparr>)"

definition build_score_object :: "ledger \<Rightarrow> score_dict" where
  "build_score_object scores = score_object (build_score_object_frame scores)"

text \<open>\<^verbatim>\<open>add_scores(challenge, score)\<close>, the closure of \<^verbatim>\<open>evaluate\<close> that appends to
  \<^verbatim>\<open>scores\<close>.\<close>

definition add_scores :: "string \<Rightarrow> real \<Rightarrow> ledger \<Rightarrow> ledger" where
  "add_scores challenge score scores =
     (case scores challenge of
        Some rs \<Rightarrow> scores(challenge \<mapsto> rs @ [score])
      | None \<Rightarrow> scores(challenge \<mapsto> [score]))"

text \<open>The score a challenge gets: what the loop body computes for one key.\<close>

definition challenge_score_of :: "ledger \<Rightarrow> string \<Rightarrow> npfloat" where
  "challenge_score_of scores key =
     (case scores key of Some rs \<Rightarrow> np_mean rs | None \<Rightarrow> Num 0)"

subsection \<open>The evaluation run\<close>

text \<open>
  \<^verbatim>\<open>evaluate\<close> talks to two collaborators whose code is not part of the module: the
  environment that \<^verbatim>\<open>gym.make\<close> returns and the controller class. They are parameters
  of the model: each operation is a function on the state \<open>'w\<close> of the world outside
  \<^verbatim>\<open>evaluate\<close> that returns the new world and either a value or the exception it
  raised. Every call that \<^verbatim>\<open>evaluate\<close> makes is logged as an event, in order, so that
  what the controller and the environment see of a run can be stated on the trace.
  Progress bars and \<^verbatim>\<open>print\<close> are left out.
\<close>

text \<open>\<^verbatim>\<open>intrinsic_timesteps\<close> is documented as \<^verbatim>\<open>int, bool\<close>: \<^verbatim>\<open>not x\<close> and \<^verbatim>\<open>x > 0\<close> on
  both (a Python bool is the integer 0 or 1).\<close>

datatype timesteps = TBool bool | TInt int

fun truthy :: "timesteps \<Rightarrow> bool" where
  "truthy (TBool b) = b"
| "truthy (TInt n) = (n \<noteq> 0)"

fun as_number :: "timesteps \<Rightarrow> int" where
  "as_number (TBool b) = (if b then 1 else 0)"
| "as_number (TInt n) = n"

text \<open>Exceptions: the one \<^verbatim>\<open>evaluate\<close> raises itself, and whatever a collaborator
  raises.\<close>

datatype exn = Exception string | CollaboratorError string

text \<open>The calls of \<^verbatim>\<open>evaluate\<close> on its collaborators. \<open>ControllerStep\<close> carries the
  \<^verbatim>\<open>reward\<close> and \<^verbatim>\<open>done\<close> arguments of \<^verbatim>\<open>controller.step\<close>. \<open>EndExtrinsicPhase\<close> is
  the hook \<^verbatim>\<open>end_extrinsic_phase\<close> of a policy; no function below logs it.\<close>

datatype event =
    GymMake
  | SetGoalsDatasetPath string
  | Render
  | ControllerInit
  | SetIntrinsicTimesteps timesteps
  | SetExtrinsicTimesteps int
  | EnvReset
  | EnvSetGoal
  | EnvStep
  | EnvEvaluateGoal
  | ControllerStep real bool
  | StartIntrinsicPhase
  | EndIntrinsicPhase
  | StartExtrinsicPhase
  | StartExtrinsicTrial
  | EndExtrinsicTrial
  | EndExtrinsicPhase

text \<open>The environment: \<^verbatim>\<open>gym.make('REALRobot-v0')\<close> and the methods and attributes
  of its result that \<^verbatim>\<open>evaluate\<close> uses. \<open>'o\<close> is the type of observations, \<open>'a\<close> of
  actions. \<^verbatim>\<open>env.step\<close> returns \<^verbatim>\<open>(observation, reward, done, info)\<close>; \<^verbatim>\<open>info\<close> is
  dropped by the caller. Setting an attribute cannot raise.\<close>

record ('w, 'o, 'a) gym_env =
  gym_make :: "'w \<Rightarrow> (exn + unit) \<times> 'w"
  set_goals_dataset_path :: "string \<Rightarrow> 'w \<Rightarrow> (exn + unit) \<times> 'w"
  render :: "'w \<Rightarrow> (exn + unit) \<times> 'w"
  set_intrinsic_timesteps :: "timesteps \<Rightarrow> 'w \<Rightarrow> 'w"
  set_extrinsic_timesteps :: "int \<Rightarrow> 'w \<Rightarrow> 'w"
  env_reset :: "'w \<Rightarrow> (exn + 'o) \<times> 'w"
  env_step :: "'a \<Rightarrow> 'w \<Rightarrow> (exn + 'o \<times> real \<times> bool) \<times> 'w"
  set_goal :: "'w \<Rightarrow> (exn + unit) \<times> 'w"
  evaluateGoal :: "'w \<Rightarrow> (exn + string \<times> real) \<times> 'w"

text \<open>The argument \<^verbatim>\<open>Controller\<close>, a class: whether it is a subclass of
  \<^verbatim>\<open>BasePolicy\<close>, its constructor (called with \<^verbatim>\<open>env.action_space\<close>) and the methods of
  its instance that \<^verbatim>\<open>evaluate\<close> calls.\<close>

record ('w, 'o, 'a) controller_class =
  issubclass_BasePolicy :: bool
  controller_init :: "'w \<Rightarrow> (exn + unit) \<times> 'w"
  controller_step :: "'o \<Rightarrow> real \<Rightarrow> bool \<Rightarrow> 'w \<Rightarrow> (exn + 'a) \<times> 'w"
  start_intrinsic_phase :: "'w \<Rightarrow> (exn + unit) \<times> 'w"
  end_intrinsic_phase :: "'w \<Rightarrow> (exn + unit) \<times> 'w"
  start_extrinsic_phase :: "'w \<Rightarrow> (exn + unit) \<times> 'w"
  start_extrinsic_trial :: "'w \<Rightarrow> (exn + unit) \<times> 'w"
  end_extrinsic_trial :: "'w \<Rightarrow> (exn + unit) \<times> 'w"

text \<open>The dictionary \<^verbatim>\<open>evaluation_state\<close>, with its keys as fields (\<open>score_record\<close>
  is the key \<^verbatim>\<open>score\<close>).\<close>

record evaluation_state_dict =
  state :: string
  max_intrinsic_timesteps :: timesteps
  max_extrinsic_timesteps :: int
  current_intrinsic_timestep :: int
  max_extrinsic_trials :: int
  num_extrinsic_trials_complete :: int
  progress_in_current_extrinsic_trial :: int
  score_record :: "(string \<times> int) list"

text \<open>The state of a run: the world, the events so far, the dictionary \<^verbatim>\<open>scores\<close>
  that \<^verbatim>\<open>add_scores\<close> appends to, and \<^verbatim>\<open>evaluation_state\<close> once it is created.\<close>

record 'w run =
  world :: 'w
  trace :: "event list"
  run_scores :: ledger
  evaluation_state :: "evaluation_state_dict option"

text \<open>
  How a piece of \<^verbatim>\<open>evaluate\<close> ends. The two \<^verbatim>\<open>while not done\<close> loops need not end, so
  they take fuel, a bound on the iterations of one loop; \<open>OutOfFuel\<close> says that the
  loop was still running when the bound was reached, with the events up to there. A
  run of the program that ends is a run of the model with any fuel large enough.
\<close>

datatype 'r outcome = Returns 'r | Raises exn | OutOfFuel

text \<open>One call on a collaborator: the event is logged, the world is what the call
  left, also when it raised.\<close>

definition call :: "event \<Rightarrow> ('w \<Rightarrow> (exn + 'r) \<times> 'w) \<Rightarrow> 'w run \<Rightarrow> (exn + 'r) \<times> 'w run" where
  "call ev f st = (case f (world st) of (r, w) \<Rightarrow> (r, st\<lparr>world := w, trace := trace st @ [ev]\<rparr>))"

text \<open>The body of both \<^verbatim>\<open>while not done\<close> loops:
  \<^verbatim>\<open>action = controller.step(observation, reward, done)\<close>, then
  \<^verbatim>\<open>observation, reward, done, _ = env.step(action)\<close>.\<close>

definition step_body ::
  "('w, 'o, 'a) gym_env \<Rightarrow> ('w, 'o, 'a) controller_class \<Rightarrow> 'o \<Rightarrow> real \<Rightarrow> bool \<Rightarrow> 'w run
     \<Rightarrow> (exn + 'o \<times> real \<times> bool) \<times> 'w run" where
  "step_body env controller observation reward done st =
     (case call (ControllerStep reward done) (controller_step controller observation reward done) st of
        (Inl e, st1) \<Rightarrow> (Inl e, st1)
      | (Inr action, st1) \<Rightarrow> call EnvStep (env_step env action) st1)"

text \<open>The loop of the intrinsic phase, with its counter \<^verbatim>\<open>steps\<close>.\<close>

fun intrinsic_loop ::
  "nat \<Rightarrow> ('w, 'o, 'a) gym_env \<Rightarrow> ('w, 'o, 'a) controller_class \<Rightarrow> 'o \<Rightarrow> real \<Rightarrow> bool \<Rightarrow> nat
     \<Rightarrow> 'w run \<Rightarrow> nat outcome \<times> 'w run" where
  "intrinsic_loop 0 env controller observation reward done steps st =
     (if \<not> done then (OutOfFuel, st) else (Returns steps, st))"
| "intrinsic_loop (Suc fuel) env controller observation reward done steps st =
     (if \<not> done then
        (case step_body env controller observation reward done st of
           (Inl e, st1) \<Rightarrow> (Raises e, st1)
         | (Inr (observation1, reward1, done1), st1) \<Rightarrow>
             intrinsic_loop fuel env controller observation1 reward1 done1 (steps + 1) st1)
      else (Returns steps, st))"

text \<open>The loop of an extrinsic trial.\<close>

fun extrinsic_loop ::
  "nat \<Rightarrow> ('w, 'o, 'a) gym_env \<Rightarrow> ('w, 'o, 'a) controller_class \<Rightarrow> 'o \<Rightarrow> real \<Rightarrow> bool
     \<Rightarrow> 'w run \<Rightarrow> unit outcome \<times> 'w run" where
  "extrinsic_loop 0 env controller observation reward done st =
     (if \<not> done then (OutOfFuel, st) else (Returns (), st))"
| "extrinsic_loop (Suc fuel) env controller observation reward done st =
     (if \<not> done then
        (case step_body env controller observation reward done st of
           (Inl e, st1) \<Rightarrow> (Raises e, st1)
         | (Inr (observation1, reward1, done1), st1) \<Rightarrow>
             extrinsic_loop fuel env controller observation1 reward1 done1 st1)
      else (Returns (), st))"

text \<open>Lines 134 to 177: \<^verbatim>\<open>if not intrinsic_timesteps: intrinsic_timesteps = 0\<close>, then
  the intrinsic phase under \<^verbatim>\<open>if intrinsic_timesteps > 0\<close>, else the warning.\<close>

definition intrinsic_phase ::
  "nat \<Rightarrow> ('w, 'o, 'a) gym_env \<Rightarrow> ('w, 'o, 'a) controller_class \<Rightarrow> timesteps
     \<Rightarrow> 'w run \<Rightarrow> unit outcome \<times> 'w run" where
  "intrinsic_phase fuel env controller intrinsic_timesteps0 st =
     (let intrinsic_timesteps =
            (if \<not> truthy intrinsic_timesteps0 then TInt 0 else intrinsic_timesteps0)
      in if as_number intrinsic_timesteps > 0 then
           (case call EnvReset (env_reset env) st of
              (Inl e, st1) \<Rightarrow> (Raises e, st1)
            | (Inr observation, st1) \<Rightarrow>
               (case call StartIntrinsicPhase (start_intrinsic_phase controller) st1 of
                  (Inl e, st2) \<Rightarrow> (Raises e, st2)
                | (Inr _, st2) \<Rightarrow>
                   (case intrinsic_loop fuel env controller observation 0 False 0 st2 of
                      (Raises e, st3) \<Rightarrow> (Raises e, st3)
                    | (OutOfFuel, st3) \<Rightarrow> (OutOfFuel, st3)
                    | (Returns steps, st3) \<Rightarrow>
                       (case call EndIntrinsicPhase (end_intrinsic_phase controller) st3 of
                          (Inl e, st4) \<Rightarrow> (Raises e, st4)
                        | (Inr _, st4) \<Rightarrow> (Returns (), st4)))))
         else (Returns (), st))"

text \<open>The body of \<^verbatim>\<open>for k in range(extrinsic_trials)\<close>.\<close>

definition extrinsic_trial ::
  "nat \<Rightarrow> ('w, 'o, 'a) gym_env \<Rightarrow> ('w, 'o, 'a) controller_class \<Rightarrow> nat
     \<Rightarrow> 'w run \<Rightarrow> unit outcome \<times> 'w run" where
  "extrinsic_trial fuel env controller k st =
     (case call EnvReset (env_reset env) st of
        (Inl e, st1) \<Rightarrow> (Raises e, st1)
      | (Inr observation, st1) \<Rightarrow>
         (case call EnvSetGoal (set_goal env) st1 of
            (Inl e, st2) \<Rightarrow> (Raises e, st2)
          | (Inr _, st2) \<Rightarrow>
             (case call StartExtrinsicTrial (start_extrinsic_trial controller) st2 of
                (Inl e, st3) \<Rightarrow> (Raises e, st3)
              | (Inr _, st3) \<Rightarrow>
                 (case extrinsic_loop fuel env controller observation 0 False st3 of
                    (Raises e, st4) \<Rightarrow> (Raises e, st4)
                  | (OutOfFuel, st4) \<Rightarrow> (OutOfFuel, st4)
                  | (Returns _, st4) \<Rightarrow>
                     (case call EndExtrinsicTrial (end_extrinsic_trial controller) st4 of
                        (Inl e, st5) \<Rightarrow> (Raises e, st5)
                      | (Inr _, st5) \<Rightarrow>
                         (case call EnvEvaluateGoal (evaluateGoal env) st5 of
                            (Inl e, st6) \<Rightarrow> (Raises e, st6)
                          | (Inr (challenge, score), st6) \<Rightarrow>
                              (Returns (),
                               st6\<lparr>run_scores := add_scores challenge score (run_scores st6)\<rparr>)))))))"

text \<open>The \<^verbatim>\<open>for\<close> loop over the trial numbers.\<close>

fun extrinsic_trials_loop ::
  "nat \<Rightarrow> ('w, 'o, 'a) gym_env \<Rightarrow> ('w, 'o, 'a) controller_class \<Rightarrow> nat list
     \<Rightarrow> 'w run \<Rightarrow> unit outcome \<times> 'w run" where
  "extrinsic_trials_loop fuel env controller [] st = (Returns (), st)"
| "extrinsic_trials_loop fuel env controller (k # ks) st =
     (case extrinsic_trial fuel env controller k st of
        (Raises e, st1) \<Rightarrow> (Raises e, st1)
      | (OutOfFuel, st1) \<Rightarrow> (OutOfFuel, st1)
      | (Returns _, st1) \<Rightarrow> extrinsic_trials_loop fuel env controller ks st1)"

text \<open>Lines 197 to 245: \<^verbatim>\<open>controller.start_extrinsic_phase()\<close>, the trials, then the
  last notification, which the source writes as \<^verbatim>\<open>controller.end_extrinsic_trial()\<close>,
  and \<^verbatim>\<open>return build_score_object(scores)\<close>.\<close>

definition extrinsic_phase ::
  "nat \<Rightarrow> ('w, 'o, 'a) gym_env \<Rightarrow> ('w, 'o, 'a) controller_class \<Rightarrow> int
     \<Rightarrow> 'w run \<Rightarrow> score_dict outcome \<times> 'w run" where
  "extrinsic_phase fuel env controller extrinsic_trials st =
     (case call StartExtrinsicPhase (start_extrinsic_phase controller) st of
        (Inl e, st1) \<Rightarrow> (Raises e, st1)
      | (Inr _, st1) \<Rightarrow>
         (case extrinsic_trials_loop fuel env controller [0..<nat extrinsic_trials] st1 of
            (Raises e, st2) \<Rightarrow> (Raises e, st2)
          | (OutOfFuel, st2) \<Rightarrow> (OutOfFuel, st2)
          | (Returns _, st2) \<Rightarrow>
             (case call EndExtrinsicTrial (end_extrinsic_trial controller) st2 of
                (Inl e, st3) \<Rightarrow> (Raises e, st3)
              | (Inr _, st3) \<Rightarrow> (Returns (build_score_object (run_scores st3)), st3))))"

definition not_subclass_message :: string where
  "not_subclass_message =
     ''Supplied Controller is not a Sub-Class of '' @
     ''real_robots.policy.BasePolicy . Please ensure that '' @
     ''the supplied controller class is derived from '' @
     ''real_robots.policy.BasePolicy , as described in the '' @
     ''example here at: '' @
     ''https://github.com/AIcrowd/real_robots#usage''"

text \<open>Lines 63 to 67: the environment is made, given the goals, and rendered when
  \<^verbatim>\<open>visualize\<close> is set.\<close>

definition make_env ::
  "('w, 'o, 'a) gym_env \<Rightarrow> bool \<Rightarrow> string \<Rightarrow> 'w run \<Rightarrow> unit outcome \<times> 'w run" where
  "make_env env visualize goals_dataset_path st =
     (case call GymMake (gym_make env) st of
        (Inl e, st1) \<Rightarrow> (Raises e, st1)
      | (Inr _, st1) \<Rightarrow>
         (case call (SetGoalsDatasetPath goals_dataset_path)
                 (set_goals_dataset_path env goals_dataset_path) st1 of
            (Inl e, st2) \<Rightarrow> (Raises e, st2)
          | (Inr _, st2) \<Rightarrow>
             (if visualize then
                (case call Render (render env) st2 of
                   (Inl e, st3) \<Rightarrow> (Raises e, st3)
                 | (Inr _, st3) \<Rightarrow> (Returns (), st3))
              else (Returns (), st2))))"

definition initial_evaluation_state :: "timesteps \<Rightarrow> int \<Rightarrow> int \<Rightarrow> evaluation_state_dict" where
  "initial_evaluation_state intrinsic_timesteps extrinsic_timesteps extrinsic_trials =
     \<lparr>state = ''PENDING'',
      max_intrinsic_timesteps = intrinsic_timesteps,
      max_extrinsic_timesteps = extrinsic_timesteps,
      current_intrinsic_timestep = 0,
      max_extrinsic_trials = extrinsic_trials,
      num_extrinsic_trials_complete = 0,
      progress_in_current_extrinsic_trial = 0,
      score_record = [(''score'', 0), (''score_2D'', 0), (''score_2.5D'', 0), (''score_3D'', 0),
               (''score_total'', 0)]\<rparr>"

text \<open>Lines 69 to 126: the \<^verbatim>\<open>issubclass\<close> check, the construction of the controller,
  the two attributes set on the environment, \<^verbatim>\<open>evaluation_state\<close> and \<^verbatim>\<open>scores = {}\<close>.\<close>

definition make_controller ::
  "('w, 'o, 'a) gym_env \<Rightarrow> ('w, 'o, 'a) controller_class \<Rightarrow> timesteps \<Rightarrow> int \<Rightarrow> int
     \<Rightarrow> 'w run \<Rightarrow> unit outcome \<times> 'w run" where
  "make_controller env Controller intrinsic_timesteps extrinsic_timesteps extrinsic_trials st =
     (if \<not> issubclass_BasePolicy Controller then (Raises (Exception not_subclass_message), st)
      else
        (case call ControllerInit (controller_init Controller) st of
           (Inl e, st1) \<Rightarrow> (Raises e, st1)
         | (Inr _, st1) \<Rightarrow>
            (Returns (),
             st1\<lparr>world := set_extrinsic_timesteps env extrinsic_timesteps
                            (set_intrinsic_timesteps env intrinsic_timesteps (world st1)),
                 trace := trace st1 @ [SetIntrinsicTimesteps intrinsic_timesteps,
                                       SetExtrinsicTimesteps extrinsic_timesteps],
                 evaluation_state := Some (initial_evaluation_state intrinsic_timesteps
                                             extrinsic_timesteps extrinsic_trials),
                 run_scores := Map.empty\<rparr>)))"

text \<open>\<^verbatim>\<open>evaluate\<close>: the four pieces in sequence, from the world \<open>w\<close> it is called
  in.\<close>

definition evaluate ::
  "nat \<Rightarrow> ('w, 'o, 'a) gym_env \<Rightarrow> ('w, 'o, 'a) controller_class \<Rightarrow> timesteps \<Rightarrow> int \<Rightarrow> int
     \<Rightarrow> bool \<Rightarrow> string \<Rightarrow> 'w \<Rightarrow> score_dict outcome \<times> 'w run" where
  "evaluate fuel env Controller intrinsic_timesteps extrinsic_timesteps extrinsic_trials
       visualize goals_dataset_path w =
     (case make_env env visualize goals_dataset_path
             \<lparr>world = w, trace = [], run_scores = Map.empty, evaluation_state = None\<rparr> of
        (Raises e, st1) \<Rightarrow> (Raises e, st1)
      | (OutOfFuel, st1) \<Rightarrow> (OutOfFuel, st1)
      | (Returns _, st1) \<Rightarrow>
         (case make_controller env Controller intrinsic_timesteps extrinsic_timesteps
                 extrinsic_trials st1 of
            (Raises e, st2) \<Rightarrow> (Raises e, st2)
          | (OutOfFuel, st2) \<Rightarrow> (OutOfFuel, st2)
          | (Returns _, st2) \<Rightarrow>
             (case intrinsic_phase fuel env Controller intrinsic_timesteps st2 of
                (Raises e, st3) \<Rightarrow> (Raises e, st3)
              | (OutOfFuel, st3) \<Rightarrow> (OutOfFuel, st3)
              | (Returns _, st3) \<Rightarrow>
                  extrinsic_phase fuel env Controller extrinsic_trials st3)))"

subsection \<open>Properties of traces\<close>

text \<open>What C10 says of a trace: every \<^verbatim>\<open>controller.step\<close> has \<^verbatim>\<open>done = False\<close>, and
  one that is the first since an \<^verbatim>\<open>env.reset\<close> (\<open>fresh\<close>) has \<^verbatim>\<open>reward = 0\<close>.
  \<open>fresh_after\<close> is the flag at the end of a trace.\<close>

fun steps_ok :: "bool \<Rightarrow> event list \<Rightarrow> bool" where
  "steps_ok fresh [] = True"
| "steps_ok fresh (EnvReset # es) = steps_ok True es"
| "steps_ok fresh (ControllerStep reward done # es) =
     (\<not> done \<and> (fresh \<longrightarrow> reward = 0) \<and> steps_ok False es)"
| "steps_ok fresh (_ # es) = steps_ok fresh es"

fun fresh_after :: "bool \<Rightarrow> event list \<Rightarrow> bool" where
  "fresh_after fresh [] = fresh"
| "fresh_after fresh (EnvReset # es) = fresh_after True es"
| "fresh_after fresh (ControllerStep reward done # es) = fresh_after False es"
| "fresh_after fresh (_ # es) = fresh_after fresh es"

fun is_controller_step :: "event \<Rightarrow> bool" where
  "is_controller_step (ControllerStep reward done) = True"
| "is_controller_step _ = False"

text \<open>\<open>j\<close> iterations of the loop body from an observation, a reward and a flag, without
  the test of the flag: what the controller and the environment do in \<open>j\<close> steps.\<close>

fun steps_run ::
  "nat \<Rightarrow> ('w, 'o, 'a) gym_env \<Rightarrow> ('w, 'o, 'a) controller_class \<Rightarrow> 'o \<Rightarrow> real \<Rightarrow> bool
     \<Rightarrow> 'w run \<Rightarrow> (exn + 'o \<times> real \<times> bool) \<times> 'w run" where
  "steps_run 0 env controller observation reward done st = (Inr (observation, reward, done), st)"
| "steps_run (Suc j) env controller observation reward done st =
     (case step_body env controller observation reward done st of
        (Inl e, st1) \<Rightarrow> (Inl e, st1)
      | (Inr (observation1, reward1, done1), st1) \<Rightarrow>
          steps_run j env controller observation1 reward1 done1 st1)"

text \<open>The five calls of one extrinsic trial other than those of its step loop.\<close>

fun is_trial_event :: "event \<Rightarrow> bool" where
  "is_trial_event EnvReset = True"
| "is_trial_event EnvSetGoal = True"
| "is_trial_event StartExtrinsicTrial = True"
| "is_trial_event EndExtrinsicTrial = True"
| "is_trial_event EnvEvaluateGoal = True"
| "is_trial_event _ = False"

definition trial_events :: "event list" where
  "trial_events =
     [EnvReset, EnvSetGoal, StartExtrinsicTrial, EndExtrinsicTrial, EnvEvaluateGoal]"

subsection \<open>A small environment and controller\<close>

text \<open>
  Collaborators to run \<^verbatim>\<open>evaluate\<close> on: an environment that is done \<open>horizon\<close> steps
  after a reset, pays the reward 1 at every step and scores every trial 1 in the
  challenge 2D, and a controller whose \<^verbatim>\<open>step\<close> raises at its call number \<open>fail_at\<close>,
  if any (calls are numbered from 0).
\<close>

record demo_world =
  since_reset :: nat
  controller_calls :: nat

definition demo_env :: "nat \<Rightarrow> (demo_world, unit, unit) gym_env" where
  "demo_env horizon =
     \<lparr>gym_make = (\<lambda>w. (Inr (), w)),
      set_goals_dataset_path = (\<lambda>p w. (Inr (), w)),
      render = (\<lambda>w. (Inr (), w)),
      set_intrinsic_timesteps = (\<lambda>t w. w),
      set_extrinsic_timesteps = (\<lambda>n w. w),
      env_reset = (\<lambda>w. (Inr (), w\<lparr>since_reset := 0\<rparr>)),
      env_step = (\<lambda>a w. (Inr ((), 1, horizon \<le> Suc (since_reset w)),
                           w\<lparr>since_reset := Suc (since_reset w)\<rparr>)),
      set_goal = (\<lambda>w. (Inr (), w)),
      evaluateGoal = (\<lambda>w. (Inr (''2D'', 1), w))\<rparr>"

definition demo_controller :: "bool \<Rightarrow> nat option \<Rightarrow> (demo_world, unit, unit) controller_class" where
  "demo_controller sub fail_at =
     \<lparr>issubclass_BasePolicy = sub,
      controller_init = (\<lambda>w. (Inr (), w)),
      controller_step = (\<lambda>observation reward done w.
         if fail_at = Some (controller_calls w) then (Inl (CollaboratorError ''step''), w)
         else (Inr (), w\<lparr>controller_calls := Suc (controller_calls w)\<rparr>)),
      start_intrinsic_phase = (\<lambda>w. (Inr (), w)),
      end_intrinsic_phase = (\<lambda>w. (Inr (), w)),
      start_extrinsic_phase = (\<lambda>w. (Inr (), w)),
      start_extrinsic_trial = (\<lambda>w. (Inr (), w)),
      end_extrinsic_trial = (\<lambda>w. (Inr (), w))\<rparr>"

definition demo_start :: demo_world where
  "demo_start = \<lparr>since_reset = 0, controller_calls = 0\<rparr>"

definition demo_run :: "demo_world run" where
  "demo_run = \<lparr>world = demo_start, trace = [], run_scores = Map.empty,
               evaluation_state = None\<rparr>"

text \<open>
  An environment of two steps per trial of which one operation raises: \<open>bad\<close> names the
  operation (by its event) and it raises when the controller has answered \<open>n\<close> calls
  of \<^verbatim>\<open>step\<close> so far. \<open>demo_first_trial\<close> is the trace of a run up to the end of trial 0
  with it, and \<open>demo_se\<close> the state of the run there.
\<close>

definition faulty_env :: "event \<Rightarrow> nat \<Rightarrow> (demo_world, unit, unit) gym_env" where
  "faulty_env bad n =
     \<lparr>gym_make = (\<lambda>w. (Inr (), w)),
      set_goals_dataset_path = (\<lambda>p w. (Inr (), w)),
      render = (\<lambda>w. (Inr (), w)),
      set_intrinsic_timesteps = (\<lambda>t w. w),
      set_extrinsic_timesteps = (\<lambda>n w. w),
      env_reset = (\<lambda>w. if bad = EnvReset \<and> controller_calls w = n
                         then (Inl (CollaboratorError ''env''), w)
                         else (Inr (), w\<lparr>since_reset := 0\<rparr>)),
      env_step = (\<lambda>a w. if bad = EnvStep \<and> controller_calls w = n
                          then (Inl (CollaboratorError ''env''), w)
                          else (Inr ((), 1, 2 \<le> Suc (since_reset w)),
                                w\<lparr>since_reset := Suc (since_reset w)\<rparr>)),
      set_goal = (\<lambda>w. if bad = EnvSetGoal \<and> controller_calls w = n
                        then (Inl (CollaboratorError ''env''), w)
                        else (Inr (), w)),
      evaluateGoal = (\<lambda>w. if bad = EnvEvaluateGoal \<and> controller_calls w = n
                            then (Inl (CollaboratorError ''env''), w)
                            else (Inr (''2D'', 1), w))\<rparr>"

definition demo_first_trial :: "event list" where
  "demo_first_trial =
     [GymMake, SetGoalsDatasetPath ''g'', ControllerInit, SetIntrinsicTimesteps (TInt 0),
      SetExtrinsicTimesteps 10, StartExtrinsicPhase,
      EnvReset, EnvSetGoal, StartExtrinsicTrial, ControllerStep 0 False, EnvStep,
      ControllerStep 1 False, EnvStep, EndExtrinsicTrial, EnvEvaluateGoal]"

definition demo_se :: "demo_world run" where
  "demo_se = \<lparr>world = \<lparr>since_reset = 2, controller_calls = 2\<rparr>,
              trace = demo_first_trial,
              run_scores = [''2D'' \<mapsto> [1]],
              evaluation_state = Some (initial_evaluation_state (TInt 0) 10 3)\<rparr>"

subsection \<open>Facts about the aggregation\<close>

lemma challenge_body_arg_scores: "arg_scores (challenge_body key f) = arg_scores f"
  by (simp add: challenge_body_def Let_def split: option.split)

lemma fold_challenge_body_arg_scores:
  "arg_scores (fold challenge_body ks f) = arg_scores f"
  by (induction ks arbitrary: f) (simp_all add: challenge_body_arg_scores)

lemma challenge_body_total:
  "total_score (challenge_body key f) =
     np_add (total_score f) (challenge_score_of (arg_scores f) key)"
  by (simp add: challenge_body_def challenge_score_of_def Let_def split: option.split)

lemma challenge_body_object:
  "score_object (challenge_body key f) =
     (score_object f)(''score_'' @ key \<mapsto> challenge_score_of (arg_scores f) key)"
  by (simp add: challenge_body_def challenge_score_of_def Let_def split: option.split)

lemma build_score_object_eq:
  "build_score_object scores =
     [''score_2D'' \<mapsto> challenge_score_of scores ''2D'',
      ''score_2.5D'' \<mapsto> challenge_score_of scores ''2.5D'',
      ''score_3D'' \<mapsto> challenge_score_of scores ''3D'',
      ''score_total'' \<mapsto>
        np_div (np_add (np_add (np_add (Num 0) (challenge_score_of scores ''2D''))
                  (challenge_score_of scores ''2.5D''))
                  (challenge_score_of scores ''3D'')) 3]"
  by (simp add: build_score_object_def build_score_object_frame_def challenges_def
      Let_def challenge_body_total challenge_body_object challenge_body_arg_scores
      numeral_3_eq_3)

lemma score_entries:
  "build_score_object scores ''score_2D'' = Some (challenge_score_of scores ''2D'')"
  "build_score_object scores ''score_2.5D'' = Some (challenge_score_of scores ''2.5D'')"
  "build_score_object scores ''score_3D'' = Some (challenge_score_of scores ''3D'')"
  "build_score_object scores ''score_total'' = Some
        (np_div (np_add (np_add (np_add (Num 0) (challenge_score_of scores ''2D''))
                  (challenge_score_of scores ''2.5D''))
                  (challenge_score_of scores ''3D'')) 3)"
  by (simp_all add: build_score_object_eq)

lemma dom_build_score_object:
  "dom (build_score_object scores) =
     {''score_2D'', ''score_2.5D'', ''score_3D'', ''score_total''}"
  by (auto simp add: build_score_object_eq)




subsection \<open>Claims on the aggregation\<close>

text \<open>
  C1 (as amended). \<^verbatim>\<open>build_score_object\<close> always returns a dictionary with exactly the
  four keys \<^verbatim>\<open>score_2D\<close>, \<^verbatim>\<open>score_2.5D\<close>, \<^verbatim>\<open>score_3D\<close>, \<^verbatim>\<open>score_total\<close>. What decides a
  challenge's score is whether the challenge is a key of the ledger: a challenge that is
  not a key scores exactly 0, a challenge that is a key with a non-empty list scores the
  arithmetic mean of the list, and a key with an empty list scores \<^verbatim>\<open>nan\<close>. Whenever
  the three scores are numbers, the total is their sum divided by 3 (the fixed number of
  challenges), and on the ledger with no keys all four values are 0.
\<close>

theorem build_score_object_by_key:
  "dom (build_score_object scores) =
     {''score_2D'', ''score_2.5D'', ''score_3D'', ''score_total''}
   \<and> (\<forall>key \<in> set challenges.
        (scores key = None \<longrightarrow>
           build_score_object scores (''score_'' @ key) = Some (Num 0))
      \<and> (\<forall>rs. scores key = Some rs \<and> rs \<noteq> [] \<longrightarrow>
           build_score_object scores (''score_'' @ key)
             = Some (Num (sum_list rs / real (length rs))))
      \<and> (scores key = Some [] \<longrightarrow>
           build_score_object scores (''score_'' @ key) = Some NaN))
   \<and> (\<forall>a b c. build_score_object scores ''score_2D'' = Some (Num a)
          \<and> build_score_object scores ''score_2.5D'' = Some (Num b)
          \<and> build_score_object scores ''score_3D'' = Some (Num c) \<longrightarrow>
        build_score_object scores ''score_total'' = Some (Num ((a + b + c) / 3)))
   \<and> build_score_object Map.empty =
        [''score_2D'' \<mapsto> Num 0, ''score_2.5D'' \<mapsto> Num 0, ''score_3D'' \<mapsto> Num 0,
         ''score_total'' \<mapsto> Num 0]"
  apply (intro conjI)
     apply (rule dom_build_score_object)
    apply (simp add: challenges_def score_entries challenge_score_of_def np_mean_def)
   apply (simp add: score_entries)
  apply (simp add: build_score_object_eq challenge_score_of_def)
  done

text \<open>The theorem at the ledger \<^verbatim>\<open>{'2D': [1, 3]}\<close>: scores 2, 0, 0 and total 2/3.\<close>

theorem build_score_object_by_key_witness:
  "build_score_object [''2D'' \<mapsto> [1, 3]] ''score_2D'' = Some (Num 2)
   \<and> build_score_object [''2D'' \<mapsto> [1, 3]] ''score_2.5D'' = Some (Num 0)
   \<and> build_score_object [''2D'' \<mapsto> [1, 3]] ''score_3D'' = Some (Num 0)
   \<and> build_score_object [''2D'' \<mapsto> [1, 3]] ''score_total'' = Some (Num (2 / 3))"
proof -
  let ?L = "[''2D'' \<mapsto> [1, 3]] :: ledger"
  note t = build_score_object_by_key [of ?L]
  from t have B: "\<forall>key \<in> set challenges.
        (?L key = None \<longrightarrow> build_score_object ?L (''score_'' @ key) = Some (Num 0))
      \<and> (\<forall>rs. ?L key = Some rs \<and> rs \<noteq> [] \<longrightarrow>
           build_score_object ?L (''score_'' @ key)
             = Some (Num (sum_list rs / real (length rs))))
      \<and> (?L key = Some [] \<longrightarrow> build_score_object ?L (''score_'' @ key) = Some NaN)"
    by (rule conjunct1 [OF conjunct2])
  from t have T: "\<forall>a b c. build_score_object ?L ''score_2D'' = Some (Num a)
          \<and> build_score_object ?L ''score_2.5D'' = Some (Num b)
          \<and> build_score_object ?L ''score_3D'' = Some (Num c) \<longrightarrow>
        build_score_object ?L ''score_total'' = Some (Num ((a + b + c) / 3))"
    by (rule conjunct1 [OF conjunct2 [OF conjunct2]])
  have k: "''2D'' \<in> set challenges" "''2.5D'' \<in> set challenges" "''3D'' \<in> set challenges"
    by (simp_all add: challenges_def)
  have a: "build_score_object ?L ''score_2D'' = Some (Num 2)"
    using bspec [OF B k(1)] by simp
  have b: "build_score_object ?L ''score_2.5D'' = Some (Num 0)"
    using bspec [OF B k(2)] by simp
  have c: "build_score_object ?L ''score_3D'' = Some (Num 0)"
    using bspec [OF B k(3)] by simp
  have d: "build_score_object ?L ''score_total'' = Some (Num ((2 + 0 + 0) / 3))"
    using T a b c by blast
  show ?thesis using a b c d by simp
qed

text \<open>
  C1 as stated fails: the ledger \<^verbatim>\<open>{'2D': []}\<close> records no score for 2D, yet the score
  of 2D and the total are \<^verbatim>\<open>nan\<close>, not 0.
\<close>

theorem build_score_object_empty_list_nan:
  "[''2D'' \<mapsto> []] ''2D'' = Some ([] :: real list)
   \<and> build_score_object [''2D'' \<mapsto> []] ''score_2D'' = Some NaN
   \<and> build_score_object [''2D'' \<mapsto> []] ''score_total'' = Some NaN
   \<and> NaN \<noteq> Num 0"
  by (simp add: build_score_object_eq challenge_score_of_def np_mean_def)

text \<open>
  C7. \<^verbatim>\<open>build_score_object\<close> has no effect on the ledger it is given: when it returns,
  the dictionary it received holds what it held at the call. So a second call on that
  dictionary returns what the first returned, and a score added after a call is
  aggregated as if the call had not happened.
\<close>

theorem build_score_object_leaves_ledger:
  "arg_scores (build_score_object_frame scores) = scores
   \<and> build_score_object (arg_scores (build_score_object_frame scores))
       = build_score_object scores
   \<and> build_score_object
        (add_scores challenge score (arg_scores (build_score_object_frame scores)))
       = build_score_object (add_scores challenge score scores)"
proof -
  have "arg_scores (build_score_object_frame scores) = scores"
    by (simp add: build_score_object_frame_def Let_def fold_challenge_body_arg_scores)
  then show ?thesis by simp
qed




subsection \<open>Facts about the run\<close>

lemma steps_ok_append:
  "steps_ok b (xs @ ys) = (steps_ok b xs \<and> steps_ok (fresh_after b xs) ys)"
  by (induction b xs rule: steps_ok.induct) simp_all

lemma fresh_after_append:
  "fresh_after b (xs @ ys) = fresh_after (fresh_after b xs) ys"
  by (induction b xs rule: fresh_after.induct) simp_all

lemma call_eq:
  "call ev f st =
     (fst (f (world st)), st\<lparr>world := snd (f (world st)), trace := trace st @ [ev]\<rparr>)"
  by (simp add: call_def split: prod.split)

lemma call_trace [simp]: "trace (snd (call ev f st)) = trace st @ [ev]"
  by (simp add: call_eq)

lemma call_evaluation_state [simp]:
  "evaluation_state (snd (call ev f st)) = evaluation_state st"
  by (simp add: call_eq)

lemma call_run_scores [simp]: "run_scores (snd (call ev f st)) = run_scores st"
  by (simp add: call_eq)

lemma step_body_evaluation_state [simp]:
  "evaluation_state (snd (step_body env c obs r d st)) = evaluation_state st"
  by (simp add: step_body_def call_eq split: sum.split)

lemma step_body_trace:
  "trace (snd (step_body env c obs r d st)) =
     trace st @ ControllerStep r d #
       (case fst (controller_step c obs r d (world st)) of Inl e \<Rightarrow> [] | Inr a \<Rightarrow> [EnvStep])"
  by (simp add: step_body_def call_eq split: sum.split)

lemma step_body_steps_ok:
  assumes "steps_ok b (trace st)" "fresh_after b (trace st) \<longrightarrow> r = 0"
  shows "steps_ok b (trace (snd (step_body env c obs r False st)))
       \<and> \<not> fresh_after b (trace (snd (step_body env c obs r False st)))"
  using assms
  by (simp add: step_body_trace steps_ok_append fresh_after_append split: sum.split)

lemma intrinsic_loop_evaluation_state [simp]:
  "evaluation_state (snd (intrinsic_loop fuel env c obs r d n st)) = evaluation_state st"
proof (induction fuel arbitrary: obs r d n st)
  case 0
  show ?case by simp
next
  case (Suc fuel)
  show ?case
  proof (cases d)
    case True
    then show ?thesis by simp
  next
    case False
    obtain res st1 where p: "step_body env c obs r False st = (res, st1)"
      by (cases "step_body env c obs r False st")
    have e: "evaluation_state st1 = evaluation_state st"
      using step_body_evaluation_state [of env c obs r False st] p by simp
    show ?thesis using False p e Suc.IH by (simp split: sum.split prod.split)
  qed
qed

lemma extrinsic_loop_evaluation_state [simp]:
  "evaluation_state (snd (extrinsic_loop fuel env c obs r d st)) = evaluation_state st"
proof (induction fuel arbitrary: obs r d st)
  case 0
  show ?case by simp
next
  case (Suc fuel)
  show ?case
  proof (cases d)
    case True
    then show ?thesis by simp
  next
    case False
    obtain res st1 where p: "step_body env c obs r False st = (res, st1)"
      by (cases "step_body env c obs r False st")
    have e: "evaluation_state st1 = evaluation_state st"
      using step_body_evaluation_state [of env c obs r False st] p by simp
    show ?thesis using False p e Suc.IH by (simp split: sum.split prod.split)
  qed
qed

lemma intrinsic_loop_steps_ok:
  "steps_ok b (trace st) \<Longrightarrow> (\<not> d \<Longrightarrow> fresh_after b (trace st) \<Longrightarrow> r = 0) \<Longrightarrow>
   steps_ok b (trace (snd (intrinsic_loop fuel env c obs r d n st)))"
proof (induction fuel arbitrary: obs r d n st)
  case 0
  then show ?case by simp
next
  case (Suc fuel)
  show ?case
  proof (cases d)
    case True
    then show ?thesis using Suc.prems by simp
  next
    case False
    obtain res st1 where p: "step_body env c obs r False st = (res, st1)"
      by (cases "step_body env c obs r False st")
    have s: "steps_ok b (trace st1)" "\<not> fresh_after b (trace st1)"
      using step_body_steps_ok [of b st r env c obs] Suc.prems False p by auto
    show ?thesis using False p s Suc.IH [of st1]
      by (simp split: sum.split prod.split)
  qed
qed

lemma extrinsic_loop_steps_ok:
  "steps_ok b (trace st) \<Longrightarrow> (\<not> d \<Longrightarrow> fresh_after b (trace st) \<Longrightarrow> r = 0) \<Longrightarrow>
   steps_ok b (trace (snd (extrinsic_loop fuel env c obs r d st)))"
proof (induction fuel arbitrary: obs r d st)
  case 0
  then show ?case by simp
next
  case (Suc fuel)
  show ?case
  proof (cases d)
    case True
    then show ?thesis using Suc.prems by simp
  next
    case False
    obtain res st1 where p: "step_body env c obs r False st = (res, st1)"
      by (cases "step_body env c obs r False st")
    have s: "steps_ok b (trace st1)" "\<not> fresh_after b (trace st1)"
      using step_body_steps_ok [of b st r env c obs] Suc.prems False p by auto
    show ?thesis using False p s Suc.IH [of st1]
      by (simp split: sum.split prod.split)
  qed
qed

lemma call_D:
  "call ev f st = (r, st1) \<Longrightarrow>
   trace st1 = trace st @ [ev] \<and> evaluation_state st1 = evaluation_state st
     \<and> run_scores st1 = run_scores st"
  by (auto simp add: call_eq)

lemma intrinsic_loop_D:
  "intrinsic_loop fuel env c obs r d n st = (out, st1) \<Longrightarrow>
   evaluation_state st1 = evaluation_state st
   \<and> (steps_ok b (trace st) \<longrightarrow> (\<not> d \<longrightarrow> fresh_after b (trace st) \<longrightarrow> r = 0) \<longrightarrow>
        steps_ok b (trace st1))"
  using intrinsic_loop_evaluation_state [of fuel env c obs r d n st]
    intrinsic_loop_steps_ok [of b st d r fuel env c obs n]
  by auto

lemma extrinsic_loop_D:
  "extrinsic_loop fuel env c obs r d st = (out, st1) \<Longrightarrow>
   evaluation_state st1 = evaluation_state st
   \<and> (steps_ok b (trace st) \<longrightarrow> (\<not> d \<longrightarrow> fresh_after b (trace st) \<longrightarrow> r = 0) \<longrightarrow>
        steps_ok b (trace st1))"
  using extrinsic_loop_evaluation_state [of fuel env c obs r d st]
    extrinsic_loop_steps_ok [of b st d r fuel env c obs]
  by auto

lemma intrinsic_phase_inv:
  "evaluation_state (snd (intrinsic_phase fuel env c its st)) = evaluation_state st
   \<and> (steps_ok b (trace st) \<longrightarrow> steps_ok b (trace (snd (intrinsic_phase fuel env c its st))))"
  by (auto simp add: intrinsic_phase_def Let_def steps_ok_append fresh_after_append
      split: prod.splits sum.splits outcome.splits
      dest!: call_D intrinsic_loop_D [where b = b])

lemma extrinsic_trial_inv:
  "evaluation_state (snd (extrinsic_trial fuel env c k st)) = evaluation_state st
   \<and> (steps_ok b (trace st) \<longrightarrow> steps_ok b (trace (snd (extrinsic_trial fuel env c k st))))"
  by (auto simp add: extrinsic_trial_def Let_def steps_ok_append fresh_after_append
      split: prod.splits sum.splits outcome.splits
      dest!: call_D extrinsic_loop_D [where b = b])

lemma extrinsic_trials_loop_inv:
  "evaluation_state (snd (extrinsic_trials_loop fuel env c ks st)) = evaluation_state st
   \<and> (steps_ok b (trace st) \<longrightarrow>
        steps_ok b (trace (snd (extrinsic_trials_loop fuel env c ks st))))"
proof (induction ks arbitrary: st)
  case Nil
  show ?case by simp
next
  case (Cons k ks)
  obtain out st1 where p: "extrinsic_trial fuel env c k st = (out, st1)"
    by (cases "extrinsic_trial fuel env c k st")
  have i: "evaluation_state st1 = evaluation_state st"
    "steps_ok b (trace st) \<longrightarrow> steps_ok b (trace st1)"
    using extrinsic_trial_inv [of fuel env c k st b] p by simp_all
  show ?case using p i Cons.IH [of st1] by (cases out) simp_all
qed

lemma extrinsic_phase_inv:
  "evaluation_state (snd (extrinsic_phase fuel env c trials st)) = evaluation_state st
   \<and> (steps_ok b (trace st) \<longrightarrow>
        steps_ok b (trace (snd (extrinsic_phase fuel env c trials st))))"
proof -
  obtain r st1 where p1: "call StartExtrinsicPhase (start_extrinsic_phase c) st = (r, st1)"
    by (cases "call StartExtrinsicPhase (start_extrinsic_phase c) st")
  obtain out st2 where p2:
    "extrinsic_trials_loop fuel env c [0..<nat trials] st1 = (out, st2)"
    by (cases "extrinsic_trials_loop fuel env c [0..<nat trials] st1")
  obtain r3 st3 where p3: "call EndExtrinsicTrial (end_extrinsic_trial c) st2 = (r3, st3)"
    by (cases "call EndExtrinsicTrial (end_extrinsic_trial c) st2")
  note d1 = call_D [OF p1] and d3 = call_D [OF p3]
  have d2: "evaluation_state st2 = evaluation_state st1"
    "steps_ok b (trace st1) \<longrightarrow> steps_ok b (trace st2)"
    using extrinsic_trials_loop_inv [of fuel env c "[0..<nat trials]" st1 b] p2 by simp_all
  show ?thesis using p1 p2 p3 d1 d2 d3
    by (auto simp add: extrinsic_phase_def steps_ok_append
        split: sum.splits outcome.splits)
qed

lemma make_env_inv:
  "evaluation_state (snd (make_env env vis path st)) = evaluation_state st
   \<and> (steps_ok b (trace st) \<longrightarrow> steps_ok b (trace (snd (make_env env vis path st))))
   \<and> (\<exists>d. trace (snd (make_env env vis path st)) = trace st @ d
          \<and> set d \<subseteq> {GymMake, SetGoalsDatasetPath path, Render})"
  by (auto simp add: make_env_def steps_ok_append
      split: prod.splits sum.splits dest!: call_D)

lemma make_controller_steps_ok:
  "steps_ok b (trace st) \<Longrightarrow>
   steps_ok b (trace (snd (make_controller env c its ets trials st)))"
  by (auto simp add: make_controller_def steps_ok_append
      split: prod.splits sum.splits dest!: call_D)

lemma make_controller_evaluation_state:
  "make_controller env c its ets trials st = (Returns u, st1) \<Longrightarrow>
   evaluation_state st1 = Some (initial_evaluation_state its ets trials)"
  by (auto simp add: make_controller_def split: prod.splits sum.splits if_splits)

lemma intrinsic_phase_skip:
  "\<not> (truthy its \<and> 0 < as_number its) \<Longrightarrow>
   intrinsic_phase fuel env c its st = (Returns (), st)"
  by (auto simp add: intrinsic_phase_def Let_def)

lemma step_body_Inr_trace:
  "step_body env c obs r d st = (Inr x, st1) \<Longrightarrow>
   trace st1 = trace st @ [ControllerStep r d, EnvStep]"
  by (auto simp add: step_body_def call_eq split: sum.splits prod.splits)

lemma steps_run_trace:
  "steps_run k env c obs r d st = (Inr x, sk) \<Longrightarrow>
   length (filter is_controller_step (trace sk))
     = length (filter is_controller_step (trace st)) + k
   \<and> count_list (trace sk) EnvStep = count_list (trace st) EnvStep + k"
proof (induction k arbitrary: obs r d st)
  case 0
  then show ?case by simp
next
  case (Suc k)
  obtain res st1 where p: "step_body env c obs r d st = (res, st1)"
    by (cases "step_body env c obs r d st")
  show ?case
  proof (cases res)
    case (Inl e)
    then show ?thesis using Suc.prems p by simp
  next
    case (Inr y)
    obtain o1 r1 d1 where y: "y = (o1, r1, d1)" by (cases y)
    have t: "trace st1 = trace st @ [ControllerStep r d, EnvStep]"
      using step_body_Inr_trace [of env c obs r d st y st1] p Inr by simp
    have "steps_run k env c o1 r1 d1 st1 = (Inr x, sk)"
      using Suc.prems p Inr y by simp
    from Suc.IH [OF this] show ?thesis using t by simp
  qed
qed

lemma intrinsic_loop_steps_run:
  assumes "\<forall>j<k. \<exists>o' r' s'. steps_run j env c obs r d st = (Inr (o', r', False), s')"
    and "steps_run k env c obs r d st = (Inr (ok, rk, True), sk)"
  shows "intrinsic_loop fuel env c obs r d n st =
           (if k \<le> fuel then (Returns (n + k), sk)
            else (OutOfFuel, snd (steps_run fuel env c obs r d st)))"
  using assms
proof (induction fuel arbitrary: k obs r d n st)
  case 0
  show ?case
  proof (cases k)
    case 0
    then show ?thesis using "0.prems" by simp
  next
    case (Suc k')
    then have "\<exists>o' r' s'. steps_run 0 env c obs r d st = (Inr (o', r', False), s')"
      using "0.prems"(1) by blast
    then have "\<not> d" by simp
    then show ?thesis using Suc by simp
  qed
next
  case (Suc fuel)
  show ?case
  proof (cases k)
    case 0
    then show ?thesis using Suc.prems by simp
  next
    case k: (Suc k')
    have "\<exists>o' r' s'. steps_run 0 env c obs r d st = (Inr (o', r', False), s')"
      using Suc.prems(1) k by blast
    then have nd: "\<not> d" by simp
    obtain res st1 where p: "step_body env c obs r d st = (res, st1)"
      by (cases "step_body env c obs r d st")
    from Suc.prems(2) k p obtain o1 r1 d1 where res: "res = Inr (o1, r1, d1)"
      by (cases res) auto
    have run: "\<And>j. steps_run (Suc j) env c obs r d st = steps_run j env c o1 r1 d1 st1"
      using p res by simp
    have a1: "\<forall>j<k'. \<exists>o' r' s'. steps_run j env c o1 r1 d1 st1 = (Inr (o', r', False), s')"
    proof (intro allI impI)
      fix j assume "j < k'"
      then have "Suc j < k" using k by simp
      then show "\<exists>o' r' s'. steps_run j env c o1 r1 d1 st1 = (Inr (o', r', False), s')"
        using Suc.prems(1) run by metis
    qed
    have a2: "steps_run k' env c o1 r1 d1 st1 = (Inr (ok, rk, True), sk)"
      using Suc.prems(2) k run by simp
    have "intrinsic_loop (Suc fuel) env c obs r d n st
            = intrinsic_loop fuel env c o1 r1 d1 (n + 1) st1"
      using nd p res by simp
    also have "\<dots> = (if k' \<le> fuel then (Returns (n + 1 + k'), sk)
            else (OutOfFuel, snd (steps_run fuel env c o1 r1 d1 st1)))"
      by (rule Suc.IH [OF a1 a2])
    finally show ?thesis using k run by simp
  qed
qed

lemma extrinsic_trials_loop_append:
  "extrinsic_trials_loop fuel env c (xs @ ys) st =
     (case extrinsic_trials_loop fuel env c xs st of
        (Raises e, st1) \<Rightarrow> (Raises e, st1)
      | (OutOfFuel, st1) \<Rightarrow> (OutOfFuel, st1)
      | (Returns _, st1) \<Rightarrow> extrinsic_trials_loop fuel env c ys st1)"
  by (induction xs arbitrary: st) (simp_all split: prod.split outcome.split)

lemma upt_split:
  assumes "k < n"
  shows "[0..<n] = [0..<k] @ k # [Suc k..<n]"
proof -
  have "[0..<k + (n - k)] = [0..<k] @ [k..<k + (n - k)]"
    by (rule upt_add_eq_append) simp
  then have "[0..<n] = [0..<k] @ [k..<n]" using assms by simp
  then show ?thesis using assms by (simp add: upt_conv_Cons)
qed

lemma extrinsic_trials_loop_raises:
  assumes "extrinsic_trials_loop fuel env c [0..<k] st = (Returns u, st1)"
    and "k < n"
    and "extrinsic_trial fuel env c k st1 = (Raises e, st2)"
  shows "extrinsic_trials_loop fuel env c [0..<n] st = (Raises e, st2)"
  using assms(1,3) by (simp add: upt_split [OF assms(2)] extrinsic_trials_loop_append)

lemma step_body_delta:
  "\<exists>d. trace (snd (step_body env c obs r dn st)) = trace st @ d
       \<and> (\<forall>e \<in> set d. is_controller_step e \<or> e = EnvStep)"
  by (simp add: step_body_trace split: sum.split)

lemma extrinsic_loop_delta:
  "\<exists>d. trace (snd (extrinsic_loop fuel env c obs r dn st)) = trace st @ d
       \<and> (\<forall>e \<in> set d. is_controller_step e \<or> e = EnvStep)"
proof (induction fuel arbitrary: obs r dn st)
  case 0
  show ?case by simp
next
  case (Suc fuel)
  show ?case
  proof (cases dn)
    case True
    then show ?thesis by simp
  next
    case False
    obtain res st1 where p: "step_body env c obs r False st = (res, st1)"
      by (cases "step_body env c obs r False st")
    obtain d1 where d1: "trace st1 = trace st @ d1"
      "\<forall>e \<in> set d1. is_controller_step e \<or> e = EnvStep"
      using step_body_delta [of env c obs r False st] p by auto
    show ?thesis
    proof (cases res)
      case (Inl e)
      then show ?thesis using False p d1 by simp
    next
      case (Inr y)
      obtain o1 r1 dn1 where y: "y = (o1, r1, dn1)" by (cases y)
      obtain d2 where d2:
        "trace (snd (extrinsic_loop fuel env c o1 r1 dn1 st1)) = trace st1 @ d2"
        "\<forall>e \<in> set d2. is_controller_step e \<or> e = EnvStep"
        using Suc.IH [of o1 r1 dn1 st1] by auto
      have "trace (snd (extrinsic_loop (Suc fuel) env c obs r dn st)) = trace st @ (d1 @ d2)"
        using False p Inr y d1(1) d2(1) by simp
      moreover have "\<forall>e \<in> set (d1 @ d2). is_controller_step e \<or> e = EnvStep"
        using d1(2) d2(2) by auto
      ultimately show ?thesis by blast
    qed
  qed
qed

lemma extrinsic_loop_D2:
  "extrinsic_loop fuel env c obs r dn st = (out, st1) \<Longrightarrow>
   \<exists>d. trace st1 = trace st @ d \<and> EnvReset \<notin> set d"
proof -
  assume a: "extrinsic_loop fuel env c obs r dn st = (out, st1)"
  obtain d where d: "trace st1 = trace st @ d"
    "\<forall>e \<in> set d. is_controller_step e \<or> e = EnvStep"
    using extrinsic_loop_delta [of fuel env c obs r dn st] a by auto
  have "EnvReset \<notin> set d"
  proof
    assume "EnvReset \<in> set d"
    then have "is_controller_step EnvReset \<or> EnvReset = EnvStep" using d(2) by blast
    then show False by simp
  qed
  then show ?thesis using d(1) by blast
qed

lemma extrinsic_trial_delta:
  "\<exists>d. trace (snd (extrinsic_trial fuel env c k st)) = trace st @ EnvReset # d
       \<and> EnvReset \<notin> set d"
  by (auto simp add: extrinsic_trial_def split: prod.splits sum.splits outcome.splits
      dest!: call_D extrinsic_loop_D2)

lemma extrinsic_trials_loop_delta:
  "\<exists>d. trace (snd (extrinsic_trials_loop fuel env c ks st)) = trace st @ d"
proof (induction ks arbitrary: st)
  case Nil
  show ?case by simp
next
  case (Cons k ks)
  obtain out st1 where p: "extrinsic_trial fuel env c k st = (out, st1)"
    by (cases "extrinsic_trial fuel env c k st")
  obtain d1 where d1: "trace st1 = trace st @ d1"
    using extrinsic_trial_delta [of fuel env c k st] p by auto
  obtain d2 where d2: "trace (snd (extrinsic_trials_loop fuel env c ks st1)) = trace st1 @ d2"
    using Cons.IH [of st1] by auto
  show ?case using p d1 d2 by (cases out) simp_all
qed

lemma extrinsic_phase_delta:
  "\<exists>d. trace (snd (extrinsic_phase fuel env c trials st)) = trace st @ StartExtrinsicPhase # d"
proof -
  obtain r st1 where p1: "call StartExtrinsicPhase (start_extrinsic_phase c) st = (r, st1)"
    by (cases "call StartExtrinsicPhase (start_extrinsic_phase c) st")
  obtain out st2 where p2:
    "extrinsic_trials_loop fuel env c [0..<nat trials] st1 = (out, st2)"
    by (cases "extrinsic_trials_loop fuel env c [0..<nat trials] st1")
  obtain r3 st3 where p3: "call EndExtrinsicTrial (end_extrinsic_trial c) st2 = (r3, st3)"
    by (cases "call EndExtrinsicTrial (end_extrinsic_trial c) st2")
  note d1 = call_D [OF p1] and d3 = call_D [OF p3]
  obtain d2 where d2: "trace st2 = trace st1 @ d2"
    using extrinsic_trials_loop_delta [of fuel env c "[0..<nat trials]" st1] p2 by auto
  show ?thesis using p1 p2 p3 d1 d2 d3
    by (auto simp add: extrinsic_phase_def split: sum.splits outcome.splits)
qed

lemma make_controller_delta:
  "make_controller env c its ets trials st = (Returns u, st1) \<Longrightarrow>
   trace st1 = trace st @ [ControllerInit, SetIntrinsicTimesteps its, SetExtrinsicTimesteps ets]"
  by (auto simp add: make_controller_def split: prod.splits sum.splits if_splits dest!: call_D)

lemma make_env_not_out_of_fuel: "fst (make_env env vis path st) \<noteq> OutOfFuel"
  by (auto simp add: make_env_def split: prod.splits sum.splits)

lemma state_initial [simp]: "state (initial_evaluation_state its ets trials) = ''PENDING''"
  by (simp add: initial_evaluation_state_def)

lemma steps_only_filter:
  "\<forall>e \<in> set d. is_controller_step e \<or> e = EnvStep \<Longrightarrow>
   filter is_trial_event d = [] \<and> EndExtrinsicPhase \<notin> set d"
proof (induction d)
  case Nil
  show ?case by simp
next
  case (Cons e d)
  then have "is_controller_step e \<or> e = EnvStep" by simp
  then have "\<not> is_trial_event e \<and> e \<noteq> EndExtrinsicPhase" by (cases e) simp_all
  then show ?case using Cons by auto
qed

lemma extrinsic_loop_D3:
  "extrinsic_loop fuel env c obs r dn st = (out, st1) \<Longrightarrow>
   \<exists>d. trace st1 = trace st @ d \<and> filter is_trial_event d = []
        \<and> EndExtrinsicPhase \<notin> set d"
  using extrinsic_loop_delta [of fuel env c obs r dn st] steps_only_filter by fastforce

lemma extrinsic_trial_returns:
  "extrinsic_trial fuel env c k st = (Returns u, st1) \<Longrightarrow>
   \<exists>d. trace st1 = trace st @ [EnvReset, EnvSetGoal, StartExtrinsicTrial] @ d
                      @ [EndExtrinsicTrial, EnvEvaluateGoal]
        \<and> filter is_trial_event d = []"
  by (auto simp add: extrinsic_trial_def split: prod.splits sum.splits outcome.splits
      dest!: call_D extrinsic_loop_D3)

lemma extrinsic_trial_no_phase_end:
  "EndExtrinsicPhase \<notin> set (trace st) \<Longrightarrow>
   EndExtrinsicPhase \<notin> set (trace (snd (extrinsic_trial fuel env c k st)))"
  by (auto simp add: extrinsic_trial_def split: prod.splits sum.splits outcome.splits
      dest!: call_D extrinsic_loop_D3)

lemma extrinsic_trials_loop_no_phase_end:
  "EndExtrinsicPhase \<notin> set (trace st) \<Longrightarrow>
   EndExtrinsicPhase \<notin> set (trace (snd (extrinsic_trials_loop fuel env c ks st)))"
proof (induction ks arbitrary: st)
  case Nil
  then show ?case by simp
next
  case (Cons k ks)
  obtain out st1 where p: "extrinsic_trial fuel env c k st = (out, st1)"
    by (cases "extrinsic_trial fuel env c k st")
  have i: "EndExtrinsicPhase \<notin> set (trace st1)"
    using extrinsic_trial_no_phase_end [OF Cons.prems, of fuel env c k] p by simp
  show ?case using p i Cons.IH [OF i] by (cases out) simp_all
qed

lemma extrinsic_trials_loop_returns:
  "extrinsic_trials_loop fuel env c ks st = (Returns u, st1) \<Longrightarrow>
   filter is_trial_event (trace st1)
     = filter is_trial_event (trace st) @ concat (replicate (length ks) trial_events)
   \<and> (ks \<noteq> [] \<longrightarrow> (\<exists>d. trace st1 = d @ [EndExtrinsicTrial, EnvEvaluateGoal]))"
proof (induction ks arbitrary: st)
  case Nil
  then show ?case by simp
next
  case (Cons k ks)
  obtain out st2 where p: "extrinsic_trial fuel env c k st = (out, st2)"
    by (cases "extrinsic_trial fuel env c k st")
  from Cons.prems p have out: "out = Returns ()" by (cases out) simp_all
  have rest: "extrinsic_trials_loop fuel env c ks st2 = (Returns u, st1)"
    using Cons.prems p out by simp
  obtain d where d: "trace st2 = trace st @ [EnvReset, EnvSetGoal, StartExtrinsicTrial] @ d
                      @ [EndExtrinsicTrial, EnvEvaluateGoal]"
      "filter is_trial_event d = []"
    using extrinsic_trial_returns [of fuel env c k st "()" st2] p out by auto
  have f2: "filter is_trial_event (trace st2) = filter is_trial_event (trace st) @ trial_events"
    using d by (simp add: trial_events_def)
  note IH = Cons.IH [OF rest]
  have a: "filter is_trial_event (trace st1)
     = filter is_trial_event (trace st) @ concat (replicate (length (k # ks)) trial_events)"
    using IH f2 by simp
  have b: "\<exists>d. trace st1 = d @ [EndExtrinsicTrial, EnvEvaluateGoal]"
  proof (cases ks)
    case Nil
    then have "st1 = st2" using rest by simp
    then show ?thesis using d(1) by (metis append.assoc)
  next
    case (Cons k' ks')
    then show ?thesis using IH by simp
  qed
  show ?case using a b by simp
qed

lemma intrinsic_loop_delta:
  "\<exists>d. trace (snd (intrinsic_loop fuel env c obs r dn n st)) = trace st @ d
       \<and> (\<forall>e \<in> set d. is_controller_step e \<or> e = EnvStep)"
proof (induction fuel arbitrary: obs r dn n st)
  case 0
  show ?case by simp
next
  case (Suc fuel)
  show ?case
  proof (cases dn)
    case True
    then show ?thesis by simp
  next
    case False
    obtain res st1 where p: "step_body env c obs r False st = (res, st1)"
      by (cases "step_body env c obs r False st")
    obtain d1 where d1: "trace st1 = trace st @ d1"
      "\<forall>e \<in> set d1. is_controller_step e \<or> e = EnvStep"
      using step_body_delta [of env c obs r False st] p by auto
    show ?thesis
    proof (cases res)
      case (Inl e)
      then show ?thesis using False p d1 by simp
    next
      case (Inr y)
      obtain o1 r1 dn1 where y: "y = (o1, r1, dn1)" by (cases y)
      obtain d2 where d2:
        "trace (snd (intrinsic_loop fuel env c o1 r1 dn1 (n + 1) st1)) = trace st1 @ d2"
        "\<forall>e \<in> set d2. is_controller_step e \<or> e = EnvStep"
        using Suc.IH [of o1 r1 dn1 "n + 1" st1] by auto
      have "trace (snd (intrinsic_loop (Suc fuel) env c obs r dn n st)) = trace st @ (d1 @ d2)"
        using False p Inr y d1(1) d2(1) by simp
      moreover have "\<forall>e \<in> set (d1 @ d2). is_controller_step e \<or> e = EnvStep"
        using d1(2) d2(2) by auto
      ultimately show ?thesis by blast
    qed
  qed
qed

lemma intrinsic_loop_D3:
  "intrinsic_loop fuel env c obs r dn n st = (out, st1) \<Longrightarrow>
   \<exists>d. trace st1 = trace st @ d \<and> EndExtrinsicPhase \<notin> set d"
  using intrinsic_loop_delta [of fuel env c obs r dn n st] steps_only_filter by fastforce

lemma intrinsic_phase_no_phase_end:
  "EndExtrinsicPhase \<notin> set (trace st) \<Longrightarrow>
   EndExtrinsicPhase \<notin> set (trace (snd (intrinsic_phase fuel env c its st)))"
  by (auto simp add: intrinsic_phase_def Let_def
      split: prod.splits sum.splits outcome.splits
      dest!: call_D intrinsic_loop_D3)

lemma extrinsic_phase_no_phase_end:
  "EndExtrinsicPhase \<notin> set (trace st) \<Longrightarrow>
   EndExtrinsicPhase \<notin> set (trace (snd (extrinsic_phase fuel env c trials st)))"
proof -
  assume a: "EndExtrinsicPhase \<notin> set (trace st)"
  obtain r st1 where p1: "call StartExtrinsicPhase (start_extrinsic_phase c) st = (r, st1)"
    by (cases "call StartExtrinsicPhase (start_extrinsic_phase c) st")
  obtain out st2 where p2:
    "extrinsic_trials_loop fuel env c [0..<nat trials] st1 = (out, st2)"
    by (cases "extrinsic_trials_loop fuel env c [0..<nat trials] st1")
  obtain r3 st3 where p3: "call EndExtrinsicTrial (end_extrinsic_trial c) st2 = (r3, st3)"
    by (cases "call EndExtrinsicTrial (end_extrinsic_trial c) st2")
  note d1 = call_D [OF p1] and d3 = call_D [OF p3]
  have n1: "EndExtrinsicPhase \<notin> set (trace st1)" using a d1 by simp
  have n2: "EndExtrinsicPhase \<notin> set (trace st2)"
    using extrinsic_trials_loop_no_phase_end [OF n1, of fuel env c "[0..<nat trials]"] p2
    by simp
  have n3: "EndExtrinsicPhase \<notin> set (trace st3)" using n2 d3 by simp
  show ?thesis using p1 p2 p3 n1 n2 n3
    by (auto simp add: extrinsic_phase_def split: sum.splits outcome.splits)
qed

lemma extrinsic_phase_returns:
  assumes "extrinsic_phase fuel env c trials st = (Returns obj, st')"
  shows "filter is_trial_event (trace st')
     = filter is_trial_event (trace st) @ concat (replicate (nat trials) trial_events)
         @ [EndExtrinsicTrial]
   \<and> last (trace st') = EndExtrinsicTrial
   \<and> (0 < trials \<longrightarrow>
        (\<exists>d. trace st' = d @ [EndExtrinsicTrial, EnvEvaluateGoal, EndExtrinsicTrial]))
   \<and> obj = build_score_object (run_scores st')"
proof -
  obtain r st1 where p1: "call StartExtrinsicPhase (start_extrinsic_phase c) st = (r, st1)"
    by (cases "call StartExtrinsicPhase (start_extrinsic_phase c) st")
  obtain out st2 where p2:
    "extrinsic_trials_loop fuel env c [0..<nat trials] st1 = (out, st2)"
    by (cases "extrinsic_trials_loop fuel env c [0..<nat trials] st1")
  obtain r3 st3 where p3: "call EndExtrinsicTrial (end_extrinsic_trial c) st2 = (r3, st3)"
    by (cases "call EndExtrinsicTrial (end_extrinsic_trial c) st2")
  note d1 = call_D [OF p1] and d3 = call_D [OF p3]
  from assms p1 obtain u1 where r: "r = Inr u1"
    by (cases r) (simp_all add: extrinsic_phase_def)
  from assms p1 p2 r have out: "out = Returns ()"
    by (cases out) (simp_all add: extrinsic_phase_def)
  from assms p1 p2 p3 r out obtain u3 where r3: "r3 = Inr u3"
    by (cases r3) (simp_all add: extrinsic_phase_def)
  have st': "st' = st3" and obj: "obj = build_score_object (run_scores st3)"
    using assms p1 p2 p3 r out r3 by (auto simp add: extrinsic_phase_def)
  note L = extrinsic_trials_loop_returns [of fuel env c "[0..<nat trials]" st1 "()" st2]
  have f: "filter is_trial_event (trace st2)
     = filter is_trial_event (trace st) @ concat (replicate (nat trials) trial_events)"
    using L p2 out d1 by simp
  have e: "0 < trials \<longrightarrow> (\<exists>d. trace st2 = d @ [EndExtrinsicTrial, EnvEvaluateGoal])"
    using L p2 out by simp
  show ?thesis using f e d3 st' obj by auto
qed

lemma count_list_trial_filter:
  "is_trial_event x \<Longrightarrow> count_list (filter is_trial_event t) x = count_list t x"
  by (induction t) auto

lemma count_list_concat_replicate:
  "count_list (concat (replicate n xs)) x = n * count_list xs x"
  by (induction n) simp_all

lemma make_env_no_phase_end:
  "EndExtrinsicPhase \<notin> set (trace st) \<Longrightarrow>
   EndExtrinsicPhase \<notin> set (trace (snd (make_env env vis path st)))"
  using make_env_inv [of env vis path st False] by auto

lemma make_controller_no_phase_end:
  "EndExtrinsicPhase \<notin> set (trace st) \<Longrightarrow>
   EndExtrinsicPhase \<notin> set (trace (snd (make_controller env c its ets trials st)))"
  by (auto simp add: make_controller_def split: prod.splits sum.splits dest!: call_D)

lemma steps_run_delta:
  "steps_run j env c obs r dn st = (res, sj) \<Longrightarrow>
   \<exists>d. trace sj = trace st @ d \<and> (\<forall>e \<in> set d. is_controller_step e \<or> e = EnvStep)"
proof (induction j arbitrary: obs r dn st)
  case 0
  then show ?case by simp
next
  case (Suc j)
  obtain res1 st1 where p: "step_body env c obs r dn st = (res1, st1)"
    by (cases "step_body env c obs r dn st")
  obtain d1 where d1: "trace st1 = trace st @ d1"
    "\<forall>e \<in> set d1. is_controller_step e \<or> e = EnvStep"
    using step_body_delta [of env c obs r dn st] p by auto
  show ?case
  proof (cases res1)
    case (Inl e)
    then have "sj = st1" using Suc.prems p by simp
    then show ?thesis using d1 by blast
  next
    case (Inr y)
    obtain o1 r1 dn1 where y: "y = (o1, r1, dn1)" by (cases y)
    have "steps_run j env c o1 r1 dn1 st1 = (res, sj)"
      using Suc.prems p Inr y by simp
    from Suc.IH [OF this] obtain d2 where d2: "trace sj = trace st1 @ d2"
      "\<forall>e \<in> set d2. is_controller_step e \<or> e = EnvStep"
      by blast
    have "trace sj = trace st @ (d1 @ d2)" using d1(1) d2(1) by simp
    moreover have "\<forall>e \<in> set (d1 @ d2). is_controller_step e \<or> e = EnvStep"
      using d1(2) d2(2) by auto
    ultimately show ?thesis by blast
  qed
qed

lemma step_body_run_scores:
  "run_scores (snd (step_body env c obs r dn st)) = run_scores st"
  by (simp add: step_body_def call_eq split: sum.split)

lemma steps_run_frame:
  "steps_run j env c obs r dn st = (res, sj) \<Longrightarrow>
   evaluation_state sj = evaluation_state st
   \<and> run_scores sj = run_scores st
   \<and> filter is_trial_event (trace sj) = filter is_trial_event (trace st)"
proof -
  assume a: "steps_run j env c obs r dn st = (res, sj)"
  have e: "evaluation_state sj = evaluation_state st \<and> run_scores sj = run_scores st"
    using a
  proof (induction j arbitrary: obs r dn st)
    case 0
    then show ?case by simp
  next
    case (Suc j)
    obtain res1 st1 where p: "step_body env c obs r dn st = (res1, st1)"
      by (cases "step_body env c obs r dn st")
    have e1: "evaluation_state st1 = evaluation_state st" "run_scores st1 = run_scores st"
      using step_body_evaluation_state [of env c obs r dn st]
        step_body_run_scores [of env c obs r dn st] p by simp_all
    show ?case
    proof (cases res1)
      case (Inl e)
      then show ?thesis using Suc.prems p e1 by simp
    next
      case (Inr y)
      obtain o1 r1 dn1 where y: "y = (o1, r1, dn1)" by (cases y)
      have "steps_run j env c o1 r1 dn1 st1 = (res, sj)"
        using Suc.prems p Inr y by simp
      from Suc.IH [OF this] show ?thesis using e1 by simp
    qed
  qed
  obtain d where d: "trace sj = trace st @ d"
    "\<forall>e \<in> set d. is_controller_step e \<or> e = EnvStep"
    using steps_run_delta [OF a] by blast
  have "filter is_trial_event d = []" using steps_only_filter [OF d(2)] by simp
  then show ?thesis using e d(1) by simp
qed

lemma extrinsic_loop_returns:
  assumes "\<forall>i<j. \<exists>o' r' s'. steps_run i env c obs r dn st = (Inr (o', r', False), s')"
    and "steps_run j env c obs r dn st = (Inr (oj, rj, True), sj)"
    and "j \<le> fuel"
  shows "extrinsic_loop fuel env c obs r dn st = (Returns (), sj)"
  using assms
proof (induction fuel arbitrary: j obs r dn st)
  case 0
  then show ?case by simp
next
  case (Suc fuel)
  show ?case
  proof (cases j)
    case 0
    then show ?thesis using Suc.prems by simp
  next
    case j: (Suc j')
    have "\<exists>o' r' s'. steps_run 0 env c obs r dn st = (Inr (o', r', False), s')"
      using Suc.prems(1) j by blast
    then have nd: "\<not> dn" by simp
    obtain res st1 where p: "step_body env c obs r dn st = (res, st1)"
      by (cases "step_body env c obs r dn st")
    from Suc.prems(2) j p obtain o1 r1 d1 where res: "res = Inr (o1, r1, d1)"
      by (cases res) auto
    have run: "\<And>i. steps_run (Suc i) env c obs r dn st = steps_run i env c o1 r1 d1 st1"
      using p res by simp
    have a1: "\<forall>i<j'. \<exists>o' r' s'. steps_run i env c o1 r1 d1 st1 = (Inr (o', r', False), s')"
    proof (intro allI impI)
      fix i assume "i < j'"
      then have "Suc i < j" using j by simp
      then show "\<exists>o' r' s'. steps_run i env c o1 r1 d1 st1 = (Inr (o', r', False), s')"
        using Suc.prems(1) run by metis
    qed
    have a2: "steps_run j' env c o1 r1 d1 st1 = (Inr (oj, rj, True), sj)"
      using Suc.prems(2) j run by simp
    have a3: "j' \<le> fuel" using Suc.prems(3) j by simp
    have "extrinsic_loop (Suc fuel) env c obs r dn st = extrinsic_loop fuel env c o1 r1 d1 st1"
      using nd p res by simp
    then show ?thesis using Suc.IH [OF a1 a2 a3] by simp
  qed
qed

lemma extrinsic_loop_raises:
  assumes "\<forall>i<j. \<exists>o' r' s'. steps_run i env c obs r dn st = (Inr (o', r', False), s')"
    and "steps_run j env c obs r dn st = (Inr (oj, rj, False), sj)"
    and "step_body env c oj rj False sj = (Inl e, sf)"
    and "j < fuel"
  shows "extrinsic_loop fuel env c obs r dn st = (Raises e, sf)"
  using assms
proof (induction fuel arbitrary: j obs r dn st)
  case 0
  then show ?case by simp
next
  case (Suc fuel)
  show ?case
  proof (cases j)
    case 0
    then show ?thesis using Suc.prems by simp
  next
    case j: (Suc j')
    have "\<exists>o' r' s'. steps_run 0 env c obs r dn st = (Inr (o', r', False), s')"
      using Suc.prems(1) j by blast
    then have nd: "\<not> dn" by simp
    obtain res st1 where p: "step_body env c obs r dn st = (res, st1)"
      by (cases "step_body env c obs r dn st")
    from Suc.prems(2) j p obtain o1 r1 d1 where res: "res = Inr (o1, r1, d1)"
      by (cases res) auto
    have run: "\<And>i. steps_run (Suc i) env c obs r dn st = steps_run i env c o1 r1 d1 st1"
      using p res by simp
    have a1: "\<forall>i<j'. \<exists>o' r' s'. steps_run i env c o1 r1 d1 st1 = (Inr (o', r', False), s')"
    proof (intro allI impI)
      fix i assume "i < j'"
      then have "Suc i < j" using j by simp
      then show "\<exists>o' r' s'. steps_run i env c o1 r1 d1 st1 = (Inr (o', r', False), s')"
        using Suc.prems(1) run by metis
    qed
    have a2: "steps_run j' env c o1 r1 d1 st1 = (Inr (oj, rj, False), sj)"
      using Suc.prems(2) j run by simp
    have a4: "j' < fuel" using Suc.prems(4) j by simp
    have "extrinsic_loop (Suc fuel) env c obs r dn st = extrinsic_loop fuel env c o1 r1 d1 st1"
      using nd p res by simp
    then show ?thesis using Suc.IH [OF a1 a2 Suc.prems(3) a4] by simp
  qed
qed

lemma evaluate_raises_in_trial:
  assumes "make_env env vis path
             \<lparr>world = w, trace = [], run_scores = Map.empty, evaluation_state = None\<rparr>
           = (Returns (), sa)"
    and "make_controller env c its ets trials sa = (Returns (), sb)"
    and "intrinsic_phase fuel env c its sb = (Returns (), sc)"
    and "call StartExtrinsicPhase (start_extrinsic_phase c) sc = (Inr (), sd)"
    and "extrinsic_trials_loop fuel env c [0..<k] sd = (Returns (), se)"
    and "k < nat trials"
    and "extrinsic_trial fuel env c k se = (Raises e, sf)"
  shows "evaluate fuel env c its ets trials vis path w = (Raises e, sf)"
proof -
  have loop: "extrinsic_trials_loop fuel env c [0..<nat trials] sd = (Raises e, sf)"
    using extrinsic_trials_loop_raises [OF assms(5,6,7)] .
  show ?thesis using assms(1,2,3,4) loop by (simp add: evaluate_def extrinsic_phase_def)
qed

lemma evaluate_state_pending:
  assumes "make_env env vis path
             \<lparr>world = w, trace = [], run_scores = Map.empty, evaluation_state = None\<rparr>
           = (Returns (), sa)"
    and "make_controller env c its ets trials sa = (Returns (), sb)"
  shows "map_option state
           (evaluation_state (snd (evaluate fuel env c its ets trials vis path w)))
         = Some ''PENDING''"
proof -
  obtain o3 st3 where p3: "intrinsic_phase fuel env c its sb = (o3, st3)"
    by (cases "intrinsic_phase fuel env c its sb")
  obtain o4 st4 where p4: "extrinsic_phase fuel env c trials st3 = (o4, st4)"
    by (cases "extrinsic_phase fuel env c trials st3")
  have es: "evaluation_state sb = Some (initial_evaluation_state its ets trials)"
    using make_controller_evaluation_state [OF assms(2)] .
  have e3: "evaluation_state st3 = evaluation_state sb"
    using intrinsic_phase_inv [of fuel env c its sb False] p3 by simp
  have e4: "evaluation_state st4 = evaluation_state st3"
    using extrinsic_phase_inv [of fuel env c trials st3 False] p4 by simp
  show ?thesis using assms p3 p4 es e3 e4
    by (simp add: evaluate_def split: outcome.split)
qed

lemma trial_reset_raises:
  "env_reset env (world se) = (Inl e, w') \<Longrightarrow>
   extrinsic_trial fuel env c k se
     = (Raises e, se\<lparr>world := w', trace := trace se @ [EnvReset]\<rparr>)"
  by (simp add: extrinsic_trial_def call_def)

lemma trial_set_goal_raises:
  "call EnvReset (env_reset env) se = (Inr observation, s1) \<Longrightarrow>
   set_goal env (world s1) = (Inl e, w') \<Longrightarrow>
   extrinsic_trial fuel env c k se
     = (Raises e, s1\<lparr>world := w', trace := trace s1 @ [EnvSetGoal]\<rparr>)"
  by (simp add: extrinsic_trial_def) (simp add: call_def)

lemma trial_step_raises:
  assumes "call EnvReset (env_reset env) se = (Inr observation, s1)"
    and "call EnvSetGoal (set_goal env) s1 = (Inr (), s2)"
    and "call StartExtrinsicTrial (start_extrinsic_trial c) s2 = (Inr (), s3)"
    and "\<forall>i<j. \<exists>o' r' s'. steps_run i env c observation 0 False s3 = (Inr (o', r', False), s')"
    and "steps_run j env c observation 0 False s3 = (Inr (oj, rj, False), sj)"
    and "j < fuel"
    and "step_body env c oj rj False sj = (Inl e, sf)"
  shows "extrinsic_trial fuel env c k se = (Raises e, sf)"
  using assms(1,2,3) extrinsic_loop_raises [OF assms(4,5,7,6)]
  by (simp add: extrinsic_trial_def)

lemma trial_evaluateGoal_raises:
  assumes "call EnvReset (env_reset env) se = (Inr observation, s1)"
    and "call EnvSetGoal (set_goal env) s1 = (Inr (), s2)"
    and "call StartExtrinsicTrial (start_extrinsic_trial c) s2 = (Inr (), s3)"
    and "\<forall>i<j. \<exists>o' r' s'. steps_run i env c observation 0 False s3 = (Inr (o', r', False), s')"
    and "steps_run j env c observation 0 False s3 = (Inr (oj, rj, True), sj)"
    and "j \<le> fuel"
    and "call EndExtrinsicTrial (end_extrinsic_trial c) sj = (Inr (), s5)"
    and "evaluateGoal env (world s5) = (Inl e, w')"
  shows "extrinsic_trial fuel env c k se
     = (Raises e, s5\<lparr>world := w', trace := trace s5 @ [EnvEvaluateGoal]\<rparr>)"
  using assms(1,2,3,7) extrinsic_loop_returns [OF assms(4,5,6)] assms(8)
  by (simp add: extrinsic_trial_def) (simp add: call_def)

lemma step_body_controller_raises:
  "controller_step c oj rj dn (world sj) = (Inl e, w') \<Longrightarrow>
   step_body env c oj rj dn sj
     = (Inl e, sj\<lparr>world := w', trace := trace sj @ [ControllerStep rj dn]\<rparr>)"
  by (simp add: step_body_def call_def)

lemma step_body_env_raises:
  "controller_step c oj rj dn (world sj) = (Inr action, w1) \<Longrightarrow>
   env_step env action w1 = (Inl e, w') \<Longrightarrow>
   step_body env c oj rj dn sj
     = (Inl e, sj\<lparr>world := w', trace := trace sj @ [ControllerStep rj dn, EnvStep]\<rparr>)"
  by (simp add: step_body_def call_def)

lemma faulty_reaches_trial_one:
  assumes "(bad, n, fa) = (EnvReset, 2, None) \<or> (bad, n, fa) = (EnvSetGoal, 2, None)
     \<or> (bad, n, fa) = (GymMake, 0, Some 3) \<or> (bad, n, fa) = (EnvStep, 4, None)
     \<or> (bad, n, fa) = (EnvEvaluateGoal, 4, None)"
  shows "\<exists>sa sb sd.
     make_env (faulty_env bad n) False ''g''
       \<lparr>world = demo_start, trace = [], run_scores = Map.empty, evaluation_state = None\<rparr>
       = (Returns (), sa)
     \<and> make_controller (faulty_env bad n) (demo_controller True fa) (TInt 0) 10 3 sa
         = (Returns (), sb)
     \<and> intrinsic_phase 3 (faulty_env bad n) (demo_controller True fa) (TInt 0) sb
         = (Returns (), sb)
     \<and> call StartExtrinsicPhase (start_extrinsic_phase (demo_controller True fa)) sb
         = (Inr (), sd)
     \<and> extrinsic_trials_loop 3 (faulty_env bad n) (demo_controller True fa) [0..<1] sd
         = (Returns (), demo_se)"
  using assms
  by (elim disjE)
    (simp_all add: make_env_def make_controller_def intrinsic_phase_def extrinsic_trial_def
      step_body_def call_def faulty_env_def demo_controller_def demo_start_def demo_se_def
      demo_first_trial_def add_scores_def eval_nat_numeral)

text \<open>Fuel only says how long a loop was watched: a run that ends within some fuel is
  the same run with any more fuel.\<close>

lemma intrinsic_loop_more_fuel:
  "fst (intrinsic_loop fuel env c obs r dn n st) \<noteq> OutOfFuel \<Longrightarrow>
   intrinsic_loop (fuel + m) env c obs r dn n st = intrinsic_loop fuel env c obs r dn n st"
proof (induction fuel arbitrary: obs r dn n st)
  case 0
  then show ?case by (cases m) (simp_all split: if_splits)
next
  case (Suc fuel)
  show ?case
  proof (cases dn)
    case True
    then show ?thesis by simp
  next
    case False
    obtain res st1 where p: "step_body env c obs r False st = (res, st1)"
      by (cases "step_body env c obs r False st")
    show ?thesis
    proof (cases res)
      case (Inl e)
      then show ?thesis using False p by simp
    next
      case (Inr y)
      obtain o1 r1 dn1 where y: "y = (o1, r1, dn1)" by (cases y)
      have "fst (intrinsic_loop fuel env c o1 r1 dn1 (n + 1) st1) \<noteq> OutOfFuel"
        using Suc.prems False p Inr y by simp
      from Suc.IH [OF this] show ?thesis using False p Inr y by simp
    qed
  qed
qed

lemma extrinsic_loop_more_fuel:
  "fst (extrinsic_loop fuel env c obs r dn st) \<noteq> OutOfFuel \<Longrightarrow>
   extrinsic_loop (fuel + m) env c obs r dn st = extrinsic_loop fuel env c obs r dn st"
proof (induction fuel arbitrary: obs r dn st)
  case 0
  then show ?case by (cases m) (simp_all split: if_splits)
next
  case (Suc fuel)
  show ?case
  proof (cases dn)
    case True
    then show ?thesis by simp
  next
    case False
    obtain res st1 where p: "step_body env c obs r False st = (res, st1)"
      by (cases "step_body env c obs r False st")
    show ?thesis
    proof (cases res)
      case (Inl e)
      then show ?thesis using False p by simp
    next
      case (Inr y)
      obtain o1 r1 dn1 where y: "y = (o1, r1, dn1)" by (cases y)
      have "fst (extrinsic_loop fuel env c o1 r1 dn1 st1) \<noteq> OutOfFuel"
        using Suc.prems False p Inr y by simp
      from Suc.IH [OF this] show ?thesis using False p Inr y by simp
    qed
  qed
qed

lemma intrinsic_phase_more_fuel:
  "fst (intrinsic_phase fuel env c its st) \<noteq> OutOfFuel \<Longrightarrow>
   intrinsic_phase (fuel + m) env c its st = intrinsic_phase fuel env c its st"
proof -
  assume a: "fst (intrinsic_phase fuel env c its st) \<noteq> OutOfFuel"
  show ?thesis
  proof (cases "truthy its \<and> 0 < as_number its")
    case False
    then show ?thesis by (simp add: intrinsic_phase_skip)
  next
    case True
    obtain r1 st1 where p1: "call EnvReset (env_reset env) st = (r1, st1)"
      by (cases "call EnvReset (env_reset env) st")
    show ?thesis
    proof (cases r1)
      case (Inl e)
      then show ?thesis using True p1 by (simp add: intrinsic_phase_def)
    next
      case (Inr obs)
      obtain r2 st2 where p2:
        "call StartIntrinsicPhase (start_intrinsic_phase c) st1 = (r2, st2)"
        by (cases "call StartIntrinsicPhase (start_intrinsic_phase c) st1")
      show ?thesis
      proof (cases r2)
        case (Inl e)
        then show ?thesis using True p1 p2 Inr by (simp add: intrinsic_phase_def)
      next
        case r2: (Inr u)
        have "fst (intrinsic_loop fuel env c obs 0 False 0 st2) \<noteq> OutOfFuel"
          using a True p1 p2 Inr r2
          by (auto simp add: intrinsic_phase_def split: prod.splits outcome.splits)
        from intrinsic_loop_more_fuel [OF this, of m] show ?thesis
          using True p1 p2 Inr r2 by (simp add: intrinsic_phase_def)
      qed
    qed
  qed
qed

lemma extrinsic_trial_more_fuel:
  "fst (extrinsic_trial fuel env c k st) \<noteq> OutOfFuel \<Longrightarrow>
   extrinsic_trial (fuel + m) env c k st = extrinsic_trial fuel env c k st"
proof -
  assume a: "fst (extrinsic_trial fuel env c k st) \<noteq> OutOfFuel"
  obtain r1 st1 where p1: "call EnvReset (env_reset env) st = (r1, st1)"
    by (cases "call EnvReset (env_reset env) st")
  show ?thesis
  proof (cases r1)
    case (Inl e)
    then show ?thesis using p1 by (simp add: extrinsic_trial_def)
  next
    case (Inr obs)
    obtain r2 st2 where p2: "call EnvSetGoal (set_goal env) st1 = (r2, st2)"
      by (cases "call EnvSetGoal (set_goal env) st1")
    show ?thesis
    proof (cases r2)
      case (Inl e)
      then show ?thesis using p1 p2 Inr by (simp add: extrinsic_trial_def)
    next
      case r2: (Inr u)
      obtain r3 st3 where p3:
        "call StartExtrinsicTrial (start_extrinsic_trial c) st2 = (r3, st3)"
        by (cases "call StartExtrinsicTrial (start_extrinsic_trial c) st2")
      show ?thesis
      proof (cases r3)
        case (Inl e)
        then show ?thesis using p1 p2 p3 Inr r2 by (simp add: extrinsic_trial_def)
      next
        case r3: (Inr u3)
        have "fst (extrinsic_loop fuel env c obs 0 False st3) \<noteq> OutOfFuel"
          using a p1 p2 p3 Inr r2 r3
          by (auto simp add: extrinsic_trial_def split: prod.splits outcome.splits)
        from extrinsic_loop_more_fuel [OF this, of m] show ?thesis
          using p1 p2 p3 Inr r2 r3 by (simp add: extrinsic_trial_def)
      qed
    qed
  qed
qed

lemma extrinsic_trials_loop_more_fuel:
  "fst (extrinsic_trials_loop fuel env c ks st) \<noteq> OutOfFuel \<Longrightarrow>
   extrinsic_trials_loop (fuel + m) env c ks st = extrinsic_trials_loop fuel env c ks st"
proof (induction ks arbitrary: st)
  case Nil
  show ?case by simp
next
  case (Cons k ks)
  obtain out st1 where p: "extrinsic_trial fuel env c k st = (out, st1)"
    by (cases "extrinsic_trial fuel env c k st")
  have nf: "out \<noteq> OutOfFuel" using Cons.prems p by (cases out) simp_all
  have q: "extrinsic_trial (fuel + m) env c k st = (out, st1)"
    using extrinsic_trial_more_fuel [of fuel env c k st m] p nf by simp
  show ?case
  proof (cases out)
    case (Returns u)
    have "fst (extrinsic_trials_loop fuel env c ks st1) \<noteq> OutOfFuel"
      using Cons.prems p Returns by simp
    from Cons.IH [OF this] show ?thesis using p q Returns by simp
  next
    case (Raises e)
    then show ?thesis using p q by simp
  next
    case OutOfFuel
    then show ?thesis using nf by simp
  qed
qed

lemma extrinsic_phase_more_fuel:
  "fst (extrinsic_phase fuel env c trials st) \<noteq> OutOfFuel \<Longrightarrow>
   extrinsic_phase (fuel + m) env c trials st = extrinsic_phase fuel env c trials st"
proof -
  assume a: "fst (extrinsic_phase fuel env c trials st) \<noteq> OutOfFuel"
  obtain r1 st1 where p1: "call StartExtrinsicPhase (start_extrinsic_phase c) st = (r1, st1)"
    by (cases "call StartExtrinsicPhase (start_extrinsic_phase c) st")
  show ?thesis
  proof (cases r1)
    case (Inl e)
    then show ?thesis using p1 by (simp add: extrinsic_phase_def)
  next
    case (Inr u)
    have "fst (extrinsic_trials_loop fuel env c [0..<nat trials] st1) \<noteq> OutOfFuel"
      using a p1 Inr by (auto simp add: extrinsic_phase_def split: prod.splits outcome.splits)
    from extrinsic_trials_loop_more_fuel [OF this, of m] show ?thesis
      using p1 Inr by (simp add: extrinsic_phase_def)
  qed
qed

lemma evaluate_more_fuel:
  "fst (evaluate fuel env c its ets trials vis path w) \<noteq> OutOfFuel \<Longrightarrow>
   evaluate (fuel + m) env c its ets trials vis path w
     = evaluate fuel env c its ets trials vis path w"
proof -
  assume a: "fst (evaluate fuel env c its ets trials vis path w) \<noteq> OutOfFuel"
  let ?st0 = "\<lparr>world = w, trace = [], run_scores = Map.empty, evaluation_state = None\<rparr>"
  obtain o1 st1 where p1: "make_env env vis path ?st0 = (o1, st1)"
    by (cases "make_env env vis path ?st0")
  obtain o2 st2 where p2: "make_controller env c its ets trials st1 = (o2, st2)"
    by (cases "make_controller env c its ets trials st1")
  show ?thesis
  proof (cases "\<exists>u1 u2. o1 = Returns u1 \<and> o2 = Returns u2")
    case False
    then show ?thesis using p1 p2
      by (cases o1; cases o2) (simp_all add: evaluate_def)
  next
    case True
    obtain o3 st3 where p3: "intrinsic_phase fuel env c its st2 = (o3, st3)"
      by (cases "intrinsic_phase fuel env c its st2")
    have nf3: "o3 \<noteq> OutOfFuel"
      using a True p1 p2 p3 by (auto simp add: evaluate_def)
    have q3: "intrinsic_phase (fuel + m) env c its st2 = (o3, st3)"
      using intrinsic_phase_more_fuel [of fuel env c its st2 m] p3 nf3 by simp
    show ?thesis
    proof (cases o3)
      case (Returns u3)
      have "fst (extrinsic_phase fuel env c trials st3) \<noteq> OutOfFuel"
        using a True p1 p2 p3 Returns by (auto simp add: evaluate_def)
      from extrinsic_phase_more_fuel [OF this, of m] show ?thesis
        using True p1 p2 p3 q3 Returns by (auto simp add: evaluate_def)
    next
      case (Raises e)
      then show ?thesis using True p1 p2 p3 q3 by (auto simp add: evaluate_def)
    next
      case OutOfFuel
      then show ?thesis using nf3 by simp
    qed
  qed
qed

lemmas run_defs = evaluate_def make_env_def make_controller_def intrinsic_phase_def
  extrinsic_phase_def extrinsic_trial_def step_body_def call_def demo_env_def
  demo_controller_def demo_start_def

subsection \<open>Claims on the run\<close>

text \<open>
  C2, as the code has it. When the extrinsic phase of a run with \<open>N \<ge> 1\<close> trials returns,
  the calls of the phase on \<^verbatim>\<open>env.reset\<close>, \<^verbatim>\<open>env.set_goal\<close>,
  \<^verbatim>\<open>controller.start_extrinsic_trial\<close>, \<^verbatim>\<open>controller.end_extrinsic_trial\<close> and
  \<^verbatim>\<open>env.evaluateGoal\<close> are, in order, \<open>N\<close> times the five of one trial and then one more
  \<^verbatim>\<open>end_extrinsic_trial\<close>. So the environment is reset, given a goal and asked for a score
  \<open>N\<close> times each and \<^verbatim>\<open>start_extrinsic_trial\<close> is called \<open>N\<close> times, but
  \<^verbatim>\<open>end_extrinsic_trial\<close> is called \<open>N + 1\<close> times, and the last two calls of the two trial
  hooks are both \<^verbatim>\<open>end_extrinsic_trial\<close>: the claim's count of \<open>N\<close> and its strict
  alternation fail at the last notification of the source.
\<close>

theorem extrinsic_phase_trial_hooks:
  assumes "extrinsic_phase fuel env Controller extrinsic_trials st = (Returns obj, st')"
    and "1 \<le> extrinsic_trials"
  shows "filter is_trial_event (trace st')
     = filter is_trial_event (trace st)
         @ concat (replicate (nat extrinsic_trials)
             [EnvReset, EnvSetGoal, StartExtrinsicTrial, EndExtrinsicTrial, EnvEvaluateGoal])
         @ [EndExtrinsicTrial]
   \<and> count_list (trace st') EndExtrinsicTrial
       = count_list (trace st) EndExtrinsicTrial + nat extrinsic_trials + 1
   \<and> count_list (trace st') StartExtrinsicTrial
       = count_list (trace st) StartExtrinsicTrial + nat extrinsic_trials
   \<and> count_list (trace st') EnvReset = count_list (trace st) EnvReset + nat extrinsic_trials
   \<and> count_list (trace st') EnvSetGoal
       = count_list (trace st) EnvSetGoal + nat extrinsic_trials
   \<and> count_list (trace st') EnvEvaluateGoal
       = count_list (trace st) EnvEvaluateGoal + nat extrinsic_trials
   \<and> (\<exists>d. trace st' = d @ [EndExtrinsicTrial, EnvEvaluateGoal, EndExtrinsicTrial])"
proof -
  note R = extrinsic_phase_returns [OF assms(1)]
  have f: "filter is_trial_event (trace st')
     = filter is_trial_event (trace st)
         @ concat (replicate (nat extrinsic_trials) trial_events) @ [EndExtrinsicTrial]"
    using R by simp
  have "count_list (filter is_trial_event (trace st')) EndExtrinsicTrial
      = count_list (filter is_trial_event (trace st)) EndExtrinsicTrial
          + nat extrinsic_trials + 1"
    unfolding f by (simp add: count_list_concat_replicate trial_events_def)
  then have e: "count_list (trace st') EndExtrinsicTrial
       = count_list (trace st) EndExtrinsicTrial + nat extrinsic_trials + 1"
    by (simp add: count_list_trial_filter)
  have "count_list (filter is_trial_event (trace st')) StartExtrinsicTrial
      = count_list (filter is_trial_event (trace st)) StartExtrinsicTrial
          + nat extrinsic_trials"
    unfolding f by (simp add: count_list_concat_replicate trial_events_def)
  then have s: "count_list (trace st') StartExtrinsicTrial
       = count_list (trace st) StartExtrinsicTrial + nat extrinsic_trials"
    by (simp add: count_list_trial_filter)
  have c: "count_list (trace st') x = count_list (trace st) x + nat extrinsic_trials"
    if "x = EnvReset \<or> x = EnvSetGoal \<or> x = EnvEvaluateGoal" for x
  proof -
    have x: "is_trial_event x" "x \<noteq> EndExtrinsicTrial" "count_list trial_events x = 1"
      using that by (auto simp add: trial_events_def)
    have "count_list (filter is_trial_event (trace st')) x
        = count_list (filter is_trial_event (trace st)) x + nat extrinsic_trials"
      unfolding f using x(2,3) by (simp add: count_list_concat_replicate)
    then show ?thesis using x(1) by (simp add: count_list_trial_filter)
  qed
  have l: "\<exists>d. trace st' = d @ [EndExtrinsicTrial, EnvEvaluateGoal, EndExtrinsicTrial]"
    using R assms(2) by simp
  show ?thesis using f e s l c [of EnvReset] c [of EnvSetGoal] c [of EnvEvaluateGoal]
    by (simp add: trial_events_def)
qed

text \<open>The theorem at two trials of one step each: three \<^verbatim>\<open>end_extrinsic_trial\<close> calls
  for two \<^verbatim>\<open>start_extrinsic_trial\<close> calls.\<close>

theorem extrinsic_phase_trial_hooks_witness:
  "count_list (trace (snd (extrinsic_phase 3 (demo_env 1) (demo_controller True None) 2
                       demo_run))) EndExtrinsicTrial = 3
   \<and> count_list (trace (snd (extrinsic_phase 3 (demo_env 1) (demo_controller True None) 2
                       demo_run))) StartExtrinsicTrial = 2"
proof -
  have "\<exists>obj st'. extrinsic_phase 3 (demo_env 1) (demo_controller True None) 2 demo_run
          = (Returns obj, st')"
    by (simp add: run_defs demo_run_def eval_nat_numeral upt_rec)
  then obtain obj st' where
    h: "extrinsic_phase 3 (demo_env 1) (demo_controller True None) 2 demo_run
          = (Returns obj, st')"
    by blast
  have one: "(1::int) \<le> 2" by simp
  have t0: "trace demo_run = []" by (simp add: demo_run_def)
  have s: "snd (extrinsic_phase 3 (demo_env 1) (demo_controller True None) 2 demo_run) = st'"
    using h by simp
  from extrinsic_phase_trial_hooks [OF h one] show ?thesis unfolding s t0 by simp
qed

text \<open>
  C3, as the code has it. No run of \<^verbatim>\<open>evaluate\<close> ever calls \<^verbatim>\<open>end_extrinsic_phase\<close>,
  whatever the collaborators do and however the run ends. In a run that returns, the last
  call is \<^verbatim>\<open>end_extrinsic_trial\<close>, and with at least one trial it comes after the
  \<^verbatim>\<open>end_extrinsic_trial\<close> and the \<^verbatim>\<open>evaluateGoal\<close> of the last trial: the source notifies
  the end of the phase with the hook of the end of a trial.
\<close>

theorem evaluate_never_ends_extrinsic_phase:
  "EndExtrinsicPhase \<notin> set (trace (snd
      (evaluate fuel env Controller its ets extrinsic_trials vis path w)))
   \<and> (\<forall>obj st. evaluate fuel env Controller its ets extrinsic_trials vis path w
                  = (Returns obj, st) \<longrightarrow>
        last (trace st) = EndExtrinsicTrial
        \<and> (0 < extrinsic_trials \<longrightarrow>
             (\<exists>d. trace st = d @ [EndExtrinsicTrial, EnvEvaluateGoal, EndExtrinsicTrial])))"
proof -
  let ?st0 = "\<lparr>world = w, trace = [], run_scores = Map.empty, evaluation_state = None\<rparr>"
  obtain o1 st1 where p1: "make_env env vis path ?st0 = (o1, st1)"
    by (cases "make_env env vis path ?st0")
  obtain o2 st2 where p2:
    "make_controller env Controller its ets extrinsic_trials st1 = (o2, st2)"
    by (cases "make_controller env Controller its ets extrinsic_trials st1")
  obtain o3 st3 where p3: "intrinsic_phase fuel env Controller its st2 = (o3, st3)"
    by (cases "intrinsic_phase fuel env Controller its st2")
  obtain o4 st4 where p4: "extrinsic_phase fuel env Controller extrinsic_trials st3 = (o4, st4)"
    by (cases "extrinsic_phase fuel env Controller extrinsic_trials st3")
  have n1: "EndExtrinsicPhase \<notin> set (trace st1)"
    using make_env_no_phase_end [of ?st0 env vis path] p1 by simp
  have n2: "EndExtrinsicPhase \<notin> set (trace st2)"
    using make_controller_no_phase_end [OF n1, of env Controller its ets extrinsic_trials] p2
    by simp
  have n3: "EndExtrinsicPhase \<notin> set (trace st3)"
    using intrinsic_phase_no_phase_end [OF n2, of fuel env Controller its] p3 by simp
  have n4: "EndExtrinsicPhase \<notin> set (trace st4)"
    using extrinsic_phase_no_phase_end [OF n3, of fuel env Controller extrinsic_trials] p4
    by simp
  have a: "EndExtrinsicPhase \<notin> set (trace (snd
      (evaluate fuel env Controller its ets extrinsic_trials vis path w)))"
    using p1 p2 p3 p4 n1 n2 n3 n4 by (simp add: evaluate_def split: outcome.split)
  have b: "last (trace st) = EndExtrinsicTrial
        \<and> (0 < extrinsic_trials \<longrightarrow>
             (\<exists>d. trace st = d @ [EndExtrinsicTrial, EnvEvaluateGoal, EndExtrinsicTrial]))"
    if r: "evaluate fuel env Controller its ets extrinsic_trials vis path w = (Returns obj, st)"
    for obj st
  proof -
    have "extrinsic_phase fuel env Controller extrinsic_trials st3 = (Returns obj, st)"
      using r p1 p2 p3 by (simp add: evaluate_def split: outcome.splits)
    from extrinsic_phase_returns [OF this] show ?thesis by simp
  qed
  show ?thesis using a b by blast
qed

text \<open>The theorem at a run of one trial of one step.\<close>

theorem evaluate_never_ends_extrinsic_phase_witness:
  "EndExtrinsicPhase \<notin> set (trace (snd
      (evaluate 3 (demo_env 1) (demo_controller True None) (TInt 0) 10 1 False ''g''
         demo_start)))
   \<and> last (trace (snd
      (evaluate 3 (demo_env 1) (demo_controller True None) (TInt 0) 10 1 False ''g''
         demo_start))) = EndExtrinsicTrial"
proof -
  have "\<exists>obj st. evaluate 3 (demo_env 1) (demo_controller True None) (TInt 0) 10 1 False
           ''g'' demo_start = (Returns obj, st)"
    by (simp add: run_defs eval_nat_numeral upt_rec)
  then obtain obj st where
    h: "evaluate 3 (demo_env 1) (demo_controller True None) (TInt 0) 10 1 False
           ''g'' demo_start = (Returns obj, st)"
    by blast
  have s: "snd (evaluate 3 (demo_env 1) (demo_controller True None) (TInt 0) 10 1 False
           ''g'' demo_start) = st"
    using h by simp
  note t = evaluate_never_ends_extrinsic_phase [of 3 "demo_env 1" "demo_controller True None" "TInt 0" 10 1 False "''g''"
      demo_start]
  from t h show ?thesis unfolding s by blast
qed

text \<open>
  C4 (as amended). Take a run that has reached trial \<open>k\<close> of its \<open>N\<close> extrinsic trials
  (\<open>k < N\<close>), in the state \<open>se\<close>, and let a call of that trial on the environment or on
  the controller's \<^verbatim>\<open>step\<close> raise: \<^verbatim>\<open>env.reset\<close>; \<^verbatim>\<open>env.set_goal\<close>; \<^verbatim>\<open>controller.step\<close>
  or \<^verbatim>\<open>env.step\<close> after \<open>j\<close> steps of the loop that were not done; or \<^verbatim>\<open>env.evaluateGoal\<close>
  once the loop is done. In each case \<^verbatim>\<open>evaluate\<close> ends with that exception in the very
  state the raising call left: the world is the one it left and the trace is the trace
  before the call with the raising call as its last event. So the exception is not
  caught and nothing is called after it: no \<^verbatim>\<open>end_extrinsic_trial\<close> or \<^verbatim>\<open>evaluateGoal\<close>
  after a raising step (up to it the trial has made one \<^verbatim>\<open>reset\<close>, one \<^verbatim>\<open>set_goal\<close> and
  one \<^verbatim>\<open>start_extrinsic_trial\<close>), no score recorded after a raising \<^verbatim>\<open>evaluateGoal\<close>, no
  \<^verbatim>\<open>reset\<close> or \<^verbatim>\<open>set_goal\<close> of trial \<open>k + 1\<close>, and no score object returned. The
  dictionary \<^verbatim>\<open>evaluation_state\<close> is as it was created, however the run ends: its
  \<^verbatim>\<open>state\<close> is \<^verbatim>\<open>PENDING\<close>.
\<close>

theorem exception_in_trial_ends_run:
  assumes "make_env env vis path
             \<lparr>world = w, trace = [], run_scores = Map.empty, evaluation_state = None\<rparr>
           = (Returns (), sa)"
    and "make_controller env Controller its ets trials sa = (Returns (), sb)"
    and "intrinsic_phase fuel env Controller its sb = (Returns (), sc)"
    and "call StartExtrinsicPhase (start_extrinsic_phase Controller) sc = (Inr (), sd)"
    and "extrinsic_trials_loop fuel env Controller [0..<k] sd = (Returns (), se)"
    and "k < nat trials"
  shows
   "(\<forall>e w'. env_reset env (world se) = (Inl e, w') \<longrightarrow>
       evaluate fuel env Controller its ets trials vis path w
         = (Raises e, se\<lparr>world := w', trace := trace se @ [EnvReset]\<rparr>))
    \<and> (\<forall>observation s1 e w'.
          call EnvReset (env_reset env) se = (Inr observation, s1)
          \<and> set_goal env (world s1) = (Inl e, w') \<longrightarrow>
          evaluate fuel env Controller its ets trials vis path w
            = (Raises e, s1\<lparr>world := w', trace := trace se @ [EnvReset, EnvSetGoal]\<rparr>))
    \<and> (\<forall>observation s1 s2 s3 j oj rj sj.
          call EnvReset (env_reset env) se = (Inr observation, s1)
          \<and> call EnvSetGoal (set_goal env) s1 = (Inr (), s2)
          \<and> call StartExtrinsicTrial (start_extrinsic_trial Controller) s2 = (Inr (), s3)
          \<and> (\<forall>i<j. \<exists>o' r' s'.
                steps_run i env Controller observation 0 False s3 = (Inr (o', r', False), s'))
          \<and> j < fuel \<longrightarrow>
          (steps_run j env Controller observation 0 False s3 = (Inr (oj, rj, False), sj) \<longrightarrow>
             filter is_trial_event (trace sj)
               = filter is_trial_event (trace se)
                   @ [EnvReset, EnvSetGoal, StartExtrinsicTrial]
             \<and> (\<forall>e w'. controller_step Controller oj rj False (world sj) = (Inl e, w') \<longrightarrow>
                   evaluate fuel env Controller its ets trials vis path w
                     = (Raises e,
                        sj\<lparr>world := w', trace := trace sj @ [ControllerStep rj False]\<rparr>))
             \<and> (\<forall>action w1 e w'.
                   controller_step Controller oj rj False (world sj) = (Inr action, w1)
                   \<and> env_step env action w1 = (Inl e, w') \<longrightarrow>
                   evaluate fuel env Controller its ets trials vis path w
                     = (Raises e,
                        sj\<lparr>world := w',
                           trace := trace sj @ [ControllerStep rj False, EnvStep]\<rparr>)))
          \<and> (\<forall>s5 e w'.
                steps_run j env Controller observation 0 False s3 = (Inr (oj, rj, True), sj)
                \<and> call EndExtrinsicTrial (end_extrinsic_trial Controller) sj = (Inr (), s5)
                \<and> evaluateGoal env (world s5) = (Inl e, w') \<longrightarrow>
                evaluate fuel env Controller its ets trials vis path w
                  = (Raises e, s5\<lparr>world := w', trace := trace s5 @ [EnvEvaluateGoal]\<rparr>)
                \<and> run_scores s5 = run_scores se))
    \<and> map_option state
         (evaluation_state (snd (evaluate fuel env Controller its ets trials vis path w)))
        = Some ''PENDING''"
proof -
  note E = evaluate_raises_in_trial [OF assms]
  have A: "evaluate fuel env Controller its ets trials vis path w
         = (Raises e, se\<lparr>world := w', trace := trace se @ [EnvReset]\<rparr>)"
    if "env_reset env (world se) = (Inl e, w')" for e w'
    by (rule E [OF trial_reset_raises [OF that]])
  have B: "evaluate fuel env Controller its ets trials vis path w
            = (Raises e, s1\<lparr>world := w', trace := trace se @ [EnvReset, EnvSetGoal]\<rparr>)"
    if "call EnvReset (env_reset env) se = (Inr observation, s1)"
      and "set_goal env (world s1) = (Inl e, w')" for observation s1 e w'
    using E [OF trial_set_goal_raises [OF that]] call_D [OF that(1)] by simp
  have C: "(steps_run j env Controller observation 0 False s3 = (Inr (oj, rj, False), sj) \<longrightarrow>
             filter is_trial_event (trace sj)
               = filter is_trial_event (trace se)
                   @ [EnvReset, EnvSetGoal, StartExtrinsicTrial]
             \<and> (\<forall>e w'. controller_step Controller oj rj False (world sj) = (Inl e, w') \<longrightarrow>
                   evaluate fuel env Controller its ets trials vis path w
                     = (Raises e,
                        sj\<lparr>world := w', trace := trace sj @ [ControllerStep rj False]\<rparr>))
             \<and> (\<forall>action w1 e w'.
                   controller_step Controller oj rj False (world sj) = (Inr action, w1)
                   \<and> env_step env action w1 = (Inl e, w') \<longrightarrow>
                   evaluate fuel env Controller its ets trials vis path w
                     = (Raises e,
                        sj\<lparr>world := w',
                           trace := trace sj @ [ControllerStep rj False, EnvStep]\<rparr>)))
          \<and> (\<forall>s5 e w'.
                steps_run j env Controller observation 0 False s3 = (Inr (oj, rj, True), sj)
                \<and> call EndExtrinsicTrial (end_extrinsic_trial Controller) sj = (Inr (), s5)
                \<and> evaluateGoal env (world s5) = (Inl e, w') \<longrightarrow>
                evaluate fuel env Controller its ets trials vis path w
                  = (Raises e, s5\<lparr>world := w', trace := trace s5 @ [EnvEvaluateGoal]\<rparr>)
                \<and> run_scores s5 = run_scores se)"
    if h: "call EnvReset (env_reset env) se = (Inr observation, s1)"
      "call EnvSetGoal (set_goal env) s1 = (Inr (), s2)"
      "call StartExtrinsicTrial (start_extrinsic_trial Controller) s2 = (Inr (), s3)"
      "\<forall>i<j. \<exists>o' r' s'.
          steps_run i env Controller observation 0 False s3 = (Inr (o', r', False), s')"
      "j < fuel"
    for observation s1 s2 s3 j oj rj sj
  proof -
    have t3: "trace s3 = trace se @ [EnvReset, EnvSetGoal, StartExtrinsicTrial]"
      "run_scores s3 = run_scores se"
      using call_D [OF h(1)] call_D [OF h(2)] call_D [OF h(3)] by simp_all
    have c1: "filter is_trial_event (trace sj)
               = filter is_trial_event (trace se)
                   @ [EnvReset, EnvSetGoal, StartExtrinsicTrial]"
      if r: "steps_run j env Controller observation 0 False s3 = (Inr (oj, rj, False), sj)"
      using steps_run_frame [OF r] t3 by simp
    have c2: "evaluate fuel env Controller its ets trials vis path w
                = (Raises e, sj\<lparr>world := w', trace := trace sj @ [ControllerStep rj False]\<rparr>)"
      if r: "steps_run j env Controller observation 0 False s3 = (Inr (oj, rj, False), sj)"
        and x: "controller_step Controller oj rj False (world sj) = (Inl e, w')" for e w'
      by (rule E [OF trial_step_raises [OF h(1,2,3,4) r h(5)
              step_body_controller_raises [OF x]]])
    have c3: "evaluate fuel env Controller its ets trials vis path w
                = (Raises e,
                   sj\<lparr>world := w', trace := trace sj @ [ControllerStep rj False, EnvStep]\<rparr>)"
      if r: "steps_run j env Controller observation 0 False s3 = (Inr (oj, rj, False), sj)"
        and x: "controller_step Controller oj rj False (world sj) = (Inr action, w1)"
          "env_step env action w1 = (Inl e, w')" for action w1 e w'
      by (rule E [OF trial_step_raises [OF h(1,2,3,4) r h(5)
              step_body_env_raises [OF x]]])
    have exception_in_trial_ends_run: "evaluate fuel env Controller its ets trials vis path w
                  = (Raises e, s5\<lparr>world := w', trace := trace s5 @ [EnvEvaluateGoal]\<rparr>)
                \<and> run_scores s5 = run_scores se"
      if r: "steps_run j env Controller observation 0 False s3 = (Inr (oj, rj, True), sj)"
        and x: "call EndExtrinsicTrial (end_extrinsic_trial Controller) sj = (Inr (), s5)"
          "evaluateGoal env (world s5) = (Inl e, w')" for s5 e w'
    proof -
      have le: "j \<le> fuel" using h(5) by simp
      have ev: "evaluate fuel env Controller its ets trials vis path w
                  = (Raises e, s5\<lparr>world := w', trace := trace s5 @ [EnvEvaluateGoal]\<rparr>)"
        by (rule E [OF trial_evaluateGoal_raises [OF h(1,2,3,4) r le x]])
      have "run_scores sj = run_scores s3"
        using steps_run_frame [OF r] by simp
      then show ?thesis using ev t3 call_D [OF x(1)] by simp
    qed
    show ?thesis using c1 c2 c3 exception_in_trial_ends_run by blast
  qed
  have P: "map_option state
         (evaluation_state (snd (evaluate fuel env Controller its ets trials vis path w)))
        = Some ''PENDING''"
    by (rule evaluate_state_pending [OF assms(1,2)])
  show ?thesis
  proof (intro conjI)
    show "\<forall>e w'. env_reset env (world se) = (Inl e, w') \<longrightarrow>
       evaluate fuel env Controller its ets trials vis path w
         = (Raises e, se\<lparr>world := w', trace := trace se @ [EnvReset]\<rparr>)"
      using A by blast
  next
    show "\<forall>observation s1 e w'.
          call EnvReset (env_reset env) se = (Inr observation, s1)
          \<and> set_goal env (world s1) = (Inl e, w') \<longrightarrow>
          evaluate fuel env Controller its ets trials vis path w
            = (Raises e, s1\<lparr>world := w', trace := trace se @ [EnvReset, EnvSetGoal]\<rparr>)"
      using B by blast
  next
    show "map_option state
         (evaluation_state (snd (evaluate fuel env Controller its ets trials vis path w)))
        = Some ''PENDING''"
      by (rule P)
  qed (intro allI impI, elim conjE, rule C, assumption+)
qed

text \<open>The theorem at five runs of three trials of two steps each, in which a call of
  trial 1 raises: \<^verbatim>\<open>env.reset\<close>, \<^verbatim>\<open>env.set_goal\<close>, the second \<^verbatim>\<open>controller.step\<close>, the
  second \<^verbatim>\<open>env.step\<close>, \<^verbatim>\<open>env.evaluateGoal\<close>. Each run ends with the exception and its
  trace ends at the raising call.\<close>

theorem exception_in_trial_ends_run_witness:
  "fst (evaluate 3 (faulty_env EnvReset 2) (demo_controller True None)
          (TInt 0) 10 3 False ''g'' demo_start) = Raises (CollaboratorError ''env'')
   \<and> trace (snd (evaluate 3 (faulty_env EnvReset 2) (demo_controller True None)
          (TInt 0) 10 3 False ''g'' demo_start))
       = demo_first_trial @ [EnvReset]
   \<and> fst (evaluate 3 (faulty_env EnvSetGoal 2) (demo_controller True None)
          (TInt 0) 10 3 False ''g'' demo_start) = Raises (CollaboratorError ''env'')
   \<and> trace (snd (evaluate 3 (faulty_env EnvSetGoal 2) (demo_controller True None)
          (TInt 0) 10 3 False ''g'' demo_start))
       = demo_first_trial @ [EnvReset, EnvSetGoal]
   \<and> fst (evaluate 3 (faulty_env GymMake 0) (demo_controller True (Some 3))
          (TInt 0) 10 3 False ''g'' demo_start) = Raises (CollaboratorError ''step'')
   \<and> trace (snd (evaluate 3 (faulty_env GymMake 0) (demo_controller True (Some 3))
          (TInt 0) 10 3 False ''g'' demo_start))
       = demo_first_trial @ [EnvReset, EnvSetGoal, StartExtrinsicTrial, ControllerStep 0 False,
            EnvStep, ControllerStep 1 False]
   \<and> fst (evaluate 3 (faulty_env EnvStep 4) (demo_controller True None)
          (TInt 0) 10 3 False ''g'' demo_start) = Raises (CollaboratorError ''env'')
   \<and> trace (snd (evaluate 3 (faulty_env EnvStep 4) (demo_controller True None)
          (TInt 0) 10 3 False ''g'' demo_start))
       = demo_first_trial @ [EnvReset, EnvSetGoal, StartExtrinsicTrial, ControllerStep 0 False,
            EnvStep, ControllerStep 1 False, EnvStep]
   \<and> fst (evaluate 3 (faulty_env EnvEvaluateGoal 4) (demo_controller True None)
          (TInt 0) 10 3 False ''g'' demo_start) = Raises (CollaboratorError ''env'')
   \<and> trace (snd (evaluate 3 (faulty_env EnvEvaluateGoal 4) (demo_controller True None)
          (TInt 0) 10 3 False ''g'' demo_start))
       = demo_first_trial @ [EnvReset, EnvSetGoal, StartExtrinsicTrial, ControllerStep 0 False,
            EnvStep, ControllerStep 1 False, EnvStep, EndExtrinsicTrial, EnvEvaluateGoal]"
proof -
  let ?st0 = "\<lparr>world = demo_start, trace = [], run_scores = Map.empty,
               evaluation_state = None\<rparr>"
  have k: "1 < nat 3" by simp
  have tse: "trace demo_se = demo_first_trial" by (simp add: demo_se_def)
  have i0: "fst (evaluate 3 (faulty_env EnvReset 2) (demo_controller True None)
          (TInt 0) 10 3 False ''g'' demo_start) = Raises (CollaboratorError ''env'')
   \<and> trace (snd (evaluate 3 (faulty_env EnvReset 2) (demo_controller True None)
          (TInt 0) 10 3 False ''g'' demo_start))
       = demo_first_trial @ [EnvReset]"
  proof -
    let ?E = "faulty_env EnvReset 2" and ?C = "demo_controller True None"
    obtain sa sb sd where
      h1: "make_env ?E False ''g'' ?st0 = (Returns (), sa)"
      and h2: "make_controller ?E ?C (TInt 0) 10 3 sa = (Returns (), sb)"
      and h3: "intrinsic_phase 3 ?E ?C (TInt 0) sb = (Returns (), sb)"
      and h4: "call StartExtrinsicPhase (start_extrinsic_phase ?C) sb = (Inr (), sd)"
      and h5: "extrinsic_trials_loop 3 ?E ?C [0..<1] sd = (Returns (), demo_se)"
      using faulty_reaches_trial_one [of EnvReset 2 None] by auto
    note T = exception_in_trial_ends_run [OF h1 h2 h3 h4 h5 k]
    have x: "env_reset ?E (world demo_se) = (Inl (CollaboratorError ''env''), world demo_se)"
      by (simp add: faulty_env_def demo_se_def)
    from T [THEN conjunct1, THEN spec, THEN spec, THEN mp, OF x]
    show ?thesis using tse by simp
  qed
  have i1: "fst (evaluate 3 (faulty_env EnvSetGoal 2) (demo_controller True None)
          (TInt 0) 10 3 False ''g'' demo_start) = Raises (CollaboratorError ''env'')
   \<and> trace (snd (evaluate 3 (faulty_env EnvSetGoal 2) (demo_controller True None)
          (TInt 0) 10 3 False ''g'' demo_start))
       = demo_first_trial @ [EnvReset, EnvSetGoal]"
  proof -
    let ?E = "faulty_env EnvSetGoal 2" and ?C = "demo_controller True None"
    obtain sa sb sd where
      h1: "make_env ?E False ''g'' ?st0 = (Returns (), sa)"
      and h2: "make_controller ?E ?C (TInt 0) 10 3 sa = (Returns (), sb)"
      and h3: "intrinsic_phase 3 ?E ?C (TInt 0) sb = (Returns (), sb)"
      and h4: "call StartExtrinsicPhase (start_extrinsic_phase ?C) sb = (Inr (), sd)"
      and h5: "extrinsic_trials_loop 3 ?E ?C [0..<1] sd = (Returns (), demo_se)"
      using faulty_reaches_trial_one [of EnvSetGoal 2 None] by auto
    note T = exception_in_trial_ends_run [OF h1 h2 h3 h4 h5 k]
    define s1 where "s1 = snd (call EnvReset (env_reset ?E) demo_se)"
    have c1: "call EnvReset (env_reset ?E) demo_se = (Inr (), s1)"
      unfolding s1_def by (simp add: call_def faulty_env_def demo_se_def)
    have x: "set_goal ?E (world s1) = (Inl (CollaboratorError ''env''), world s1)"
      unfolding s1_def by (simp add: call_def faulty_env_def demo_se_def)
    from T [THEN conjunct2, THEN conjunct1, THEN spec, THEN spec, THEN spec, THEN spec,
        THEN mp, OF conjI [OF c1 x]]
    show ?thesis using tse by simp
  qed
  have i2: "fst (evaluate 3 (faulty_env GymMake 0) (demo_controller True (Some 3))
          (TInt 0) 10 3 False ''g'' demo_start) = Raises (CollaboratorError ''step'')
   \<and> trace (snd (evaluate 3 (faulty_env GymMake 0) (demo_controller True (Some 3))
          (TInt 0) 10 3 False ''g'' demo_start))
       = demo_first_trial @ [EnvReset, EnvSetGoal, StartExtrinsicTrial, ControllerStep 0 False,
            EnvStep, ControllerStep 1 False]"
  proof -
    let ?E = "faulty_env GymMake 0" and ?C = "demo_controller True (Some 3)"
    obtain sa sb sd where
      h1: "make_env ?E False ''g'' ?st0 = (Returns (), sa)"
      and h2: "make_controller ?E ?C (TInt 0) 10 3 sa = (Returns (), sb)"
      and h3: "intrinsic_phase 3 ?E ?C (TInt 0) sb = (Returns (), sb)"
      and h4: "call StartExtrinsicPhase (start_extrinsic_phase ?C) sb = (Inr (), sd)"
      and h5: "extrinsic_trials_loop 3 ?E ?C [0..<1] sd = (Returns (), demo_se)"
      using faulty_reaches_trial_one [of GymMake 0 "Some 3"] by auto
    note T = exception_in_trial_ends_run [OF h1 h2 h3 h4 h5 k]
    define s1 where "s1 = snd (call EnvReset (env_reset ?E) demo_se)"
    define s2 where "s2 = snd (call EnvSetGoal (set_goal ?E) s1)"
    define s3 where "s3 = snd (call StartExtrinsicTrial (start_extrinsic_trial ?C) s2)"
    have c1: "call EnvReset (env_reset ?E) demo_se = (Inr (), s1)"
      unfolding s1_def by (simp add: call_def faulty_env_def demo_se_def)
    have c2: "call EnvSetGoal (set_goal ?E) s1 = (Inr (), s2)"
      unfolding s2_def s1_def by (simp add: call_def faulty_env_def demo_se_def)
    have c3: "call StartExtrinsicTrial (start_extrinsic_trial ?C) s2 = (Inr (), s3)"
      unfolding s3_def by (simp add: call_def demo_controller_def)
    have t3: "trace s3 = demo_first_trial @ [EnvReset, EnvSetGoal, StartExtrinsicTrial]"
      unfolding s3_def s2_def s1_def by (simp add: call_eq demo_se_def)
    have w3: "world s3 = \<lparr>since_reset = 0, controller_calls = 2\<rparr>"
      unfolding s3_def s2_def s1_def
      by (simp add: call_eq faulty_env_def demo_controller_def demo_se_def)
    define sj where "sj = snd (steps_run 1 ?E ?C () 0 False s3)"
    have n: "\<forall>i<1. \<exists>o' r' s'. steps_run i ?E ?C () 0 False s3 = (Inr (o', r', False), s')"
      using w3
      by (simp add: All_less_Suc eval_nat_numeral step_body_def call_def faulty_env_def
          demo_controller_def)
    have r: "steps_run 1 ?E ?C () 0 False s3 = (Inr ((), 1, False), sj)"
      unfolding sj_def using w3
      by (simp add: eval_nat_numeral step_body_def call_def faulty_env_def
          demo_controller_def)
    have tj: "trace sj = demo_first_trial @ [EnvReset, EnvSetGoal, StartExtrinsicTrial, ControllerStep 0 False,
                                      EnvStep]"
      unfolding sj_def using w3 t3
      by (simp add: eval_nat_numeral step_body_def call_def faulty_env_def
          demo_controller_def)
    have wj: "world sj = \<lparr>since_reset = 1, controller_calls = 3\<rparr>"
      unfolding sj_def using w3
      by (simp add: eval_nat_numeral step_body_def call_def faulty_env_def
          demo_controller_def)
    have f: "1 < (3::nat)" by simp
    note Cc = T [THEN conjunct2, THEN conjunct2, THEN conjunct1,
        THEN spec [of _ "()"], THEN spec [of _ s1], THEN spec [of _ s2],
        THEN spec [of _ s3], THEN spec [of _ 1], THEN spec [of _ "()"],
        THEN spec [of _ 1], THEN spec [of _ sj], THEN mp, OF conjI [OF c1 conjI [OF c2
          conjI [OF c3 conjI [OF n f]]]]]
    have x: "controller_step ?C () 1 False (world sj)
               = (Inl (CollaboratorError ''step''), world sj)"
      using wj by (simp add: demo_controller_def)
    from Cc [THEN conjunct1, THEN mp, OF r, THEN conjunct2, THEN conjunct1,
        THEN spec, THEN spec, THEN mp, OF x]
    show ?thesis using tj by simp
  qed
  have i3: "fst (evaluate 3 (faulty_env EnvStep 4) (demo_controller True None)
          (TInt 0) 10 3 False ''g'' demo_start) = Raises (CollaboratorError ''env'')
   \<and> trace (snd (evaluate 3 (faulty_env EnvStep 4) (demo_controller True None)
          (TInt 0) 10 3 False ''g'' demo_start))
       = demo_first_trial @ [EnvReset, EnvSetGoal, StartExtrinsicTrial, ControllerStep 0 False,
            EnvStep, ControllerStep 1 False, EnvStep]"
  proof -
    let ?E = "faulty_env EnvStep 4" and ?C = "demo_controller True None"
    obtain sa sb sd where
      h1: "make_env ?E False ''g'' ?st0 = (Returns (), sa)"
      and h2: "make_controller ?E ?C (TInt 0) 10 3 sa = (Returns (), sb)"
      and h3: "intrinsic_phase 3 ?E ?C (TInt 0) sb = (Returns (), sb)"
      and h4: "call StartExtrinsicPhase (start_extrinsic_phase ?C) sb = (Inr (), sd)"
      and h5: "extrinsic_trials_loop 3 ?E ?C [0..<1] sd = (Returns (), demo_se)"
      using faulty_reaches_trial_one [of EnvStep 4 None] by auto
    note T = exception_in_trial_ends_run [OF h1 h2 h3 h4 h5 k]
    define s1 where "s1 = snd (call EnvReset (env_reset ?E) demo_se)"
    define s2 where "s2 = snd (call EnvSetGoal (set_goal ?E) s1)"
    define s3 where "s3 = snd (call StartExtrinsicTrial (start_extrinsic_trial ?C) s2)"
    have c1: "call EnvReset (env_reset ?E) demo_se = (Inr (), s1)"
      unfolding s1_def by (simp add: call_def faulty_env_def demo_se_def)
    have c2: "call EnvSetGoal (set_goal ?E) s1 = (Inr (), s2)"
      unfolding s2_def s1_def by (simp add: call_def faulty_env_def demo_se_def)
    have c3: "call StartExtrinsicTrial (start_extrinsic_trial ?C) s2 = (Inr (), s3)"
      unfolding s3_def by (simp add: call_def demo_controller_def)
    have t3: "trace s3 = demo_first_trial @ [EnvReset, EnvSetGoal, StartExtrinsicTrial]"
      unfolding s3_def s2_def s1_def by (simp add: call_eq demo_se_def)
    have w3: "world s3 = \<lparr>since_reset = 0, controller_calls = 2\<rparr>"
      unfolding s3_def s2_def s1_def
      by (simp add: call_eq faulty_env_def demo_controller_def demo_se_def)
    define sj where "sj = snd (steps_run 1 ?E ?C () 0 False s3)"
    have n: "\<forall>i<1. \<exists>o' r' s'. steps_run i ?E ?C () 0 False s3 = (Inr (o', r', False), s')"
      using w3
      by (simp add: All_less_Suc eval_nat_numeral step_body_def call_def faulty_env_def
          demo_controller_def)
    have r: "steps_run 1 ?E ?C () 0 False s3 = (Inr ((), 1, False), sj)"
      unfolding sj_def using w3
      by (simp add: eval_nat_numeral step_body_def call_def faulty_env_def
          demo_controller_def)
    have tj: "trace sj = demo_first_trial @ [EnvReset, EnvSetGoal, StartExtrinsicTrial, ControllerStep 0 False,
                                      EnvStep]"
      unfolding sj_def using w3 t3
      by (simp add: eval_nat_numeral step_body_def call_def faulty_env_def
          demo_controller_def)
    have wj: "world sj = \<lparr>since_reset = 1, controller_calls = 3\<rparr>"
      unfolding sj_def using w3
      by (simp add: eval_nat_numeral step_body_def call_def faulty_env_def
          demo_controller_def)
    have f: "1 < (3::nat)" by simp
    note Cc = T [THEN conjunct2, THEN conjunct2, THEN conjunct1,
        THEN spec [of _ "()"], THEN spec [of _ s1], THEN spec [of _ s2],
        THEN spec [of _ s3], THEN spec [of _ 1], THEN spec [of _ "()"],
        THEN spec [of _ 1], THEN spec [of _ sj], THEN mp, OF conjI [OF c1 conjI [OF c2
          conjI [OF c3 conjI [OF n f]]]]]
    have x: "controller_step ?C () 1 False (world sj)
               = (Inr (), \<lparr>since_reset = 1, controller_calls = 4\<rparr>)"
      using wj by (simp add: demo_controller_def)
    have y: "env_step ?E () \<lparr>since_reset = 1, controller_calls = 4\<rparr>
               = (Inl (CollaboratorError ''env''), \<lparr>since_reset = 1, controller_calls = 4\<rparr>)"
      by (simp add: faulty_env_def)
    from Cc [THEN conjunct1, THEN mp, OF r, THEN conjunct2, THEN conjunct2,
        THEN spec, THEN spec, THEN spec, THEN spec, THEN mp, OF conjI [OF x y]]
    show ?thesis using tj by simp
  qed
  have i4: "fst (evaluate 3 (faulty_env EnvEvaluateGoal 4) (demo_controller True None)
          (TInt 0) 10 3 False ''g'' demo_start) = Raises (CollaboratorError ''env'')
   \<and> trace (snd (evaluate 3 (faulty_env EnvEvaluateGoal 4) (demo_controller True None)
          (TInt 0) 10 3 False ''g'' demo_start))
       = demo_first_trial @ [EnvReset, EnvSetGoal, StartExtrinsicTrial, ControllerStep 0 False,
            EnvStep, ControllerStep 1 False, EnvStep, EndExtrinsicTrial, EnvEvaluateGoal]"
  proof -
    let ?E = "faulty_env EnvEvaluateGoal 4" and ?C = "demo_controller True None"
    obtain sa sb sd where
      h1: "make_env ?E False ''g'' ?st0 = (Returns (), sa)"
      and h2: "make_controller ?E ?C (TInt 0) 10 3 sa = (Returns (), sb)"
      and h3: "intrinsic_phase 3 ?E ?C (TInt 0) sb = (Returns (), sb)"
      and h4: "call StartExtrinsicPhase (start_extrinsic_phase ?C) sb = (Inr (), sd)"
      and h5: "extrinsic_trials_loop 3 ?E ?C [0..<1] sd = (Returns (), demo_se)"
      using faulty_reaches_trial_one [of EnvEvaluateGoal 4 None] by auto
    note T = exception_in_trial_ends_run [OF h1 h2 h3 h4 h5 k]
    define s1 where "s1 = snd (call EnvReset (env_reset ?E) demo_se)"
    define s2 where "s2 = snd (call EnvSetGoal (set_goal ?E) s1)"
    define s3 where "s3 = snd (call StartExtrinsicTrial (start_extrinsic_trial ?C) s2)"
    have c1: "call EnvReset (env_reset ?E) demo_se = (Inr (), s1)"
      unfolding s1_def by (simp add: call_def faulty_env_def demo_se_def)
    have c2: "call EnvSetGoal (set_goal ?E) s1 = (Inr (), s2)"
      unfolding s2_def s1_def by (simp add: call_def faulty_env_def demo_se_def)
    have c3: "call StartExtrinsicTrial (start_extrinsic_trial ?C) s2 = (Inr (), s3)"
      unfolding s3_def by (simp add: call_def demo_controller_def)
    have t3: "trace s3 = demo_first_trial @ [EnvReset, EnvSetGoal, StartExtrinsicTrial]"
      unfolding s3_def s2_def s1_def by (simp add: call_eq demo_se_def)
    have w3: "world s3 = \<lparr>since_reset = 0, controller_calls = 2\<rparr>"
      unfolding s3_def s2_def s1_def
      by (simp add: call_eq faulty_env_def demo_controller_def demo_se_def)
    define sj where "sj = snd (steps_run 2 ?E ?C () 0 False s3)"
    have n: "\<forall>i<2. \<exists>o' r' s'. steps_run i ?E ?C () 0 False s3 = (Inr (o', r', False), s')"
      using w3
      by (simp add: All_less_Suc eval_nat_numeral step_body_def call_def faulty_env_def
          demo_controller_def)
    have r: "steps_run 2 ?E ?C () 0 False s3 = (Inr ((), 1, True), sj)"
      unfolding sj_def using w3
      by (simp add: eval_nat_numeral step_body_def call_def faulty_env_def
          demo_controller_def)
    have tj: "trace sj = demo_first_trial @ [EnvReset, EnvSetGoal, StartExtrinsicTrial, ControllerStep 0 False,
                                      EnvStep, ControllerStep 1 False, EnvStep]"
      unfolding sj_def using w3 t3
      by (simp add: eval_nat_numeral step_body_def call_def faulty_env_def
          demo_controller_def)
    have wj: "world sj = \<lparr>since_reset = 2, controller_calls = 4\<rparr>"
      unfolding sj_def using w3
      by (simp add: eval_nat_numeral step_body_def call_def faulty_env_def
          demo_controller_def)
    have f: "2 < (3::nat)" by simp
    note Cc = T [THEN conjunct2, THEN conjunct2, THEN conjunct1,
        THEN spec [of _ "()"], THEN spec [of _ s1], THEN spec [of _ s2],
        THEN spec [of _ s3], THEN spec [of _ 2], THEN spec [of _ "()"],
        THEN spec [of _ 1], THEN spec [of _ sj], THEN mp, OF conjI [OF c1 conjI [OF c2
          conjI [OF c3 conjI [OF n f]]]]]
    define s5 where "s5 = snd (call EndExtrinsicTrial (end_extrinsic_trial ?C) sj)"
    have c5: "call EndExtrinsicTrial (end_extrinsic_trial ?C) sj = (Inr (), s5)"
      unfolding s5_def by (simp add: call_def demo_controller_def)
    have t5: "trace s5 = trace sj @ [EndExtrinsicTrial]" "world s5 = world sj"
      unfolding s5_def by (simp_all add: call_eq demo_controller_def)
    have x: "evaluateGoal ?E (world s5) = (Inl (CollaboratorError ''env''), world s5)"
      using wj t5 by (simp add: faulty_env_def)
    from Cc [THEN conjunct2, THEN spec, THEN spec, THEN spec, THEN mp,
        OF conjI [OF r conjI [OF c5 x]]]
    show ?thesis using tj t5 by simp
  qed
  show ?thesis using i0 i1 i2 i3 i4 by blast
qed

text \<open>
  C4 as stated fails: in a run of two trials whose second call of \<^verbatim>\<open>controller.step\<close>
  raises, the exception ends the run and \<^verbatim>\<open>evaluation_state["state"]\<close> is \<^verbatim>\<open>PENDING\<close>,
  not \<^verbatim>\<open>ERROR\<close>.
\<close>

theorem exception_leaves_state_pending:
  "fst (evaluate 3 (demo_env 2) (demo_controller True (Some 1)) (TInt 0) 10 2 False ''g''
          demo_start) = Raises (CollaboratorError ''step'')
   \<and> map_option state (evaluation_state (snd
        (evaluate 3 (demo_env 2) (demo_controller True (Some 1)) (TInt 0) 10 2 False ''g''
          demo_start))) = Some ''PENDING''
   \<and> ''PENDING'' \<noteq> ''ERROR''"
  by (simp add: run_defs initial_evaluation_state_def eval_nat_numeral upt_rec)

text \<open>
  C5 (as amended). With \<^verbatim>\<open>intrinsic_timesteps\<close> 0 or \<^verbatim>\<open>False\<close>, the intrinsic phase does
  nothing at all: once the environment and the controller are made, \<^verbatim>\<open>evaluate\<close> is the
  extrinsic phase. Before \<^verbatim>\<open>start_extrinsic_phase\<close>, the only calls are those that make
  the environment and the controller (no \<^verbatim>\<open>env.reset\<close>, no \<^verbatim>\<open>start_intrinsic_phase\<close>, no
  \<^verbatim>\<open>end_intrinsic_phase\<close>, no \<^verbatim>\<open>controller.step\<close>), and \<^verbatim>\<open>start_extrinsic_phase\<close> is
  the next call. The dictionary \<^verbatim>\<open>evaluation_state\<close> is never updated: however the run
  ends, its \<^verbatim>\<open>state\<close> is \<^verbatim>\<open>PENDING\<close>.
\<close>

theorem intrinsic_phase_skipped:
  assumes "its = TInt 0 \<or> its = TBool False"
    and "make_env env vis path
           \<lparr>world = w, trace = [], run_scores = Map.empty, evaluation_state = None\<rparr>
         = (Returns (), sa)"
    and "make_controller env Controller its ets trials sa = (Returns (), sb)"
  shows "intrinsic_phase fuel env Controller its sb = (Returns (), sb)
    \<and> evaluate fuel env Controller its ets trials vis path w
        = extrinsic_phase fuel env Controller trials sb
    \<and> set (trace sb) \<subseteq> {GymMake, SetGoalsDatasetPath path, Render, ControllerInit,
                          SetIntrinsicTimesteps its, SetExtrinsicTimesteps ets}
    \<and> (\<exists>d. trace (snd (evaluate fuel env Controller its ets trials vis path w))
            = trace sb @ StartExtrinsicPhase # d)
    \<and> map_option state
         (evaluation_state (snd (evaluate fuel env Controller its ets trials vis path w)))
        = Some ''PENDING''"
proof -
  let ?st0 = "\<lparr>world = w, trace = [], run_scores = Map.empty, evaluation_state = None\<rparr>"
  have skip: "intrinsic_phase fuel env Controller its sb = (Returns (), sb)"
    using assms(1) by (auto simp add: intrinsic_phase_skip)
  have ev: "evaluate fuel env Controller its ets trials vis path w
        = extrinsic_phase fuel env Controller trials sb"
    using assms(2,3) skip by (simp add: evaluate_def)
  obtain d0 where d0: "trace sa = d0" "set d0 \<subseteq> {GymMake, SetGoalsDatasetPath path, Render}"
    using make_env_inv [of env vis path ?st0 False] assms(2) by auto
  have tb: "trace sb = trace sa @ [ControllerInit, SetIntrinsicTimesteps its,
                                   SetExtrinsicTimesteps ets]"
    using make_controller_delta [OF assms(3)] .
  have sub: "set (trace sb) \<subseteq> {GymMake, SetGoalsDatasetPath path, Render, ControllerInit,
                          SetIntrinsicTimesteps its, SetExtrinsicTimesteps ets}"
    using d0 tb by auto
  have es: "evaluation_state sb = Some (initial_evaluation_state its ets trials)"
    using make_controller_evaluation_state [OF assms(3)] .
  have "evaluation_state (snd (extrinsic_phase fuel env Controller trials sb))
          = evaluation_state sb"
    using extrinsic_phase_inv [of fuel env Controller trials sb False] by simp
  then have pend: "map_option state
         (evaluation_state (snd (evaluate fuel env Controller its ets trials vis path w)))
        = Some ''PENDING''"
    using ev es by simp
  show ?thesis
    using skip ev sub pend extrinsic_phase_delta [of fuel env Controller trials sb]
    by simp
qed

text \<open>The theorem at \<^verbatim>\<open>intrinsic_timesteps=False\<close>, with the visualizer on.\<close>

theorem intrinsic_phase_skipped_witness:
  "(\<exists>d. trace (snd (evaluate 3 (demo_env 1) (demo_controller True None) (TBool False) 10 1
                     True ''g'' demo_start))
          = [GymMake, SetGoalsDatasetPath ''g'', Render, ControllerInit,
             SetIntrinsicTimesteps (TBool False), SetExtrinsicTimesteps 10]
            @ StartExtrinsicPhase # d)
   \<and> map_option state (evaluation_state (snd
        (evaluate 3 (demo_env 1) (demo_controller True None) (TBool False) 10 1 True ''g''
          demo_start))) = Some ''PENDING''"
proof -
  let ?env = "demo_env 1" and ?c = "demo_controller True None"
  let ?st0 = "\<lparr>world = demo_start, trace = [], run_scores = Map.empty,
               evaluation_state = None\<rparr>"
  define sa where "sa = snd (make_env ?env True ''g'' ?st0)"
  define sb where "sb = snd (make_controller ?env ?c (TBool False) 10 1 sa)"
  have h0: "TBool False = TInt 0 \<or> TBool False = TBool False" by simp
  have h1: "make_env ?env True ''g'' ?st0 = (Returns (), sa)"
    unfolding sa_def by (simp add: run_defs)
  have h2: "make_controller ?env ?c (TBool False) 10 1 sa = (Returns (), sb)"
    unfolding sb_def sa_def by (simp add: run_defs)
  have tb: "trace sb = [GymMake, SetGoalsDatasetPath ''g'', Render, ControllerInit,
             SetIntrinsicTimesteps (TBool False), SetExtrinsicTimesteps 10]"
    unfolding sb_def sa_def by (simp add: run_defs)
  from intrinsic_phase_skipped [OF h0 h1 h2, of 3] show ?thesis unfolding tb by blast
qed

text \<open>
  C5 as stated fails: after a run with \<^verbatim>\<open>intrinsic_timesteps=0\<close> the only state that
  \<^verbatim>\<open>evaluation_state\<close> holds is \<^verbatim>\<open>PENDING\<close>; nothing is \<^verbatim>\<open>SKIPPED\<close>.
\<close>

theorem skipped_run_state_pending:
  "map_option state (evaluation_state (snd
        (evaluate 3 (demo_env 1) (demo_controller True None) (TInt 0) 10 1 False ''g''
          demo_start))) = Some ''PENDING''
   \<and> ''PENDING'' \<noteq> ''SKIPPED''"
  by (simp add: run_defs initial_evaluation_state_def eval_nat_numeral upt_rec)

text \<open>
  C6. Let the intrinsic phase be entered (\<^verbatim>\<open>intrinsic_timesteps\<close> is positive) and let
  the environment first answer \<^verbatim>\<open>done\<close> at the \<open>k\<close>-th step of the controller and the
  environment from the reset. Then the loop makes exactly \<open>k\<close> iterations: it returns
  with \<^verbatim>\<open>steps = k\<close> for every bound of at least \<open>k\<close> iterations and is still running at
  every smaller bound, with \<open>k\<close> calls of \<^verbatim>\<open>controller.step\<close> and \<open>k\<close> of \<^verbatim>\<open>env.step\<close>. The
  phase then ends with \<^verbatim>\<open>end_intrinsic_phase\<close>; \<^verbatim>\<open>intrinsic_timesteps\<close> appears nowhere
  in what the loop or the phase does.
\<close>

theorem intrinsic_loop_runs_until_done:
  assumes "truthy its" and "0 < as_number its"
    and "call EnvReset (env_reset env) st = (Inr observation, st1)"
    and "call StartIntrinsicPhase (start_intrinsic_phase Controller) st1 = (Inr (), st2)"
    and "\<forall>j<k. \<exists>o' r' s'.
           steps_run j env Controller observation 0 False st2 = (Inr (o', r', False), s')"
    and "steps_run k env Controller observation 0 False st2 = (Inr (ok, rk, True), sk)"
  shows "(\<forall>fuel. k \<le> fuel \<longrightarrow>
            intrinsic_loop fuel env Controller observation 0 False 0 st2 = (Returns k, sk)
          \<and> intrinsic_phase fuel env Controller its st
              = (case call EndIntrinsicPhase (end_intrinsic_phase Controller) sk of
                   (Inl e, s) \<Rightarrow> (Raises e, s)
                 | (Inr u, s) \<Rightarrow> (Returns (), s)))
    \<and> (\<forall>fuel. fuel < k \<longrightarrow>
            fst (intrinsic_loop fuel env Controller observation 0 False 0 st2) = OutOfFuel)
    \<and> length (filter is_controller_step (trace sk))
        = length (filter is_controller_step (trace st2)) + k
    \<and> count_list (trace sk) EnvStep = count_list (trace st2) EnvStep + k"
proof -
  note L = intrinsic_loop_steps_run [OF assms(5,6), where n = 0]
  have a: "\<And>fuel. k \<le> fuel \<Longrightarrow>
      intrinsic_loop fuel env Controller observation 0 False 0 st2 = (Returns k, sk)"
    using L by simp
  have b: "\<And>fuel. k \<le> fuel \<Longrightarrow> intrinsic_phase fuel env Controller its st
              = (case call EndIntrinsicPhase (end_intrinsic_phase Controller) sk of
                   (Inl e, s) \<Rightarrow> (Raises e, s)
                 | (Inr u, s) \<Rightarrow> (Returns (), s))"
    using assms(1,2,3,4) a by (simp add: intrinsic_phase_def Let_def)
  have c: "\<And>fuel. fuel < k \<Longrightarrow>
      fst (intrinsic_loop fuel env Controller observation 0 False 0 st2) = OutOfFuel"
    using L by simp
  show ?thesis using a b c steps_run_trace [OF assms(6)] by simp
qed

text \<open>The theorem at a budget of 1 and an environment that is done after 3 steps: the
  loop makes 3 iterations, and so does the phase run with that budget.\<close>

theorem intrinsic_loop_runs_until_done_witness:
  "fst (intrinsic_loop 7 (demo_env 3) (demo_controller True None) () 0 False 0
          (snd (call StartIntrinsicPhase (start_intrinsic_phase (demo_controller True None))
             (snd (call EnvReset (env_reset (demo_env 3)) demo_run))))) = Returns 3
   \<and> fst (intrinsic_loop 2 (demo_env 3) (demo_controller True None) () 0 False 0
          (snd (call StartIntrinsicPhase (start_intrinsic_phase (demo_controller True None))
             (snd (call EnvReset (env_reset (demo_env 3)) demo_run))))) = OutOfFuel
   \<and> length (filter is_controller_step (trace (snd
          (intrinsic_phase 7 (demo_env 3) (demo_controller True None) (TInt 1) demo_run))))
       = 3"
proof -
  let ?env = "demo_env 3" and ?c = "demo_controller True None"
  define st1 where "st1 = snd (call EnvReset (env_reset ?env) demo_run)"
  define st2 where "st2 = snd (call StartIntrinsicPhase (start_intrinsic_phase ?c) st1)"
  define sk where "sk = snd (steps_run 3 ?env ?c () 0 False st2)"
  have h1: "truthy (TInt 1)" by simp
  have h2: "0 < as_number (TInt 1)" by simp
  have h3: "call EnvReset (env_reset ?env) demo_run = (Inr (), st1)"
    unfolding st1_def by (simp add: run_defs demo_run_def)
  have h4: "call StartIntrinsicPhase (start_intrinsic_phase ?c) st1 = (Inr (), st2)"
    unfolding st2_def by (simp add: run_defs)
  have h5: "\<forall>j<3. \<exists>o' r' s'. steps_run j ?env ?c () 0 False st2 = (Inr (o', r', False), s')"
    unfolding st2_def st1_def
    by (simp add: run_defs demo_run_def eval_nat_numeral All_less_Suc)
  have h6: "steps_run 3 ?env ?c () 0 False st2 = (Inr ((), 1, True), sk)"
    unfolding sk_def st2_def st1_def
    by (simp add: run_defs demo_run_def eval_nat_numeral)
  note t = intrinsic_loop_runs_until_done [OF h1 h2 h3 h4 h5 h6]
  have a: "intrinsic_loop 7 ?env ?c () 0 False 0 st2 = (Returns 3, sk)"
    using t by simp
  have b: "fst (intrinsic_loop 2 ?env ?c () 0 False 0 st2) = OutOfFuel"
    using t by simp
  have p: "intrinsic_phase 7 ?env ?c (TInt 1) demo_run
             = (case call EndIntrinsicPhase (end_intrinsic_phase ?c) sk of
                  (Inl e, s) \<Rightarrow> (Raises e, s)
                | (Inr u, s) \<Rightarrow> (Returns (), s))"
    using t by simp
  have tp: "trace (snd (intrinsic_phase 7 ?env ?c (TInt 1) demo_run))
              = trace sk @ [EndIntrinsicPhase]"
    unfolding p by (simp add: call_eq split: sum.split)
  have t2: "trace st2 = [EnvReset, StartIntrinsicPhase]"
    unfolding st2_def st1_def by (simp add: call_eq demo_run_def)
  have n: "length (filter is_controller_step (trace sk))
             = length (filter is_controller_step (trace st2)) + 3"
    using t by simp
  have c: "length (filter is_controller_step (trace (snd
          (intrinsic_phase 7 ?env ?c (TInt 1) demo_run)))) = 3"
    unfolding tp using n t2 by simp
  show ?thesis using a b c unfolding st2_def st1_def by simp
qed

text \<open>
  C9. When \<^verbatim>\<open>Controller\<close> is not a subclass of \<^verbatim>\<open>BasePolicy\<close>, \<^verbatim>\<open>evaluate\<close> always ends
  with an exception, and the only calls it has made are those that make the environment
  (\<^verbatim>\<open>gym.make\<close>, \<^verbatim>\<open>set_goals_dataset_path\<close>, \<^verbatim>\<open>render\<close>): the controller is not
  constructed, no hook is called, no step is made. Unless making the environment raised,
  the exception is the one of the check, with its message.
\<close>

theorem not_subclass_fails_at_construction:
  assumes "\<not> issubclass_BasePolicy Controller"
  shows "\<exists>e st. evaluate fuel env Controller its ets trials vis path w = (Raises e, st)
    \<and> set (trace st) \<subseteq> {GymMake, SetGoalsDatasetPath path, Render}
    \<and> (fst (make_env env vis path
               \<lparr>world = w, trace = [], run_scores = Map.empty, evaluation_state = None\<rparr>)
          = Returns () \<longrightarrow> e = Exception not_subclass_message)"
proof -
  let ?st0 = "\<lparr>world = w, trace = [], run_scores = Map.empty, evaluation_state = None\<rparr>"
  obtain o1 s1 where p: "make_env env vis path ?st0 = (o1, s1)"
    by (cases "make_env env vis path ?st0")
  have t: "set (trace s1) \<subseteq> {GymMake, SetGoalsDatasetPath path, Render}"
    using make_env_inv [of env vis path ?st0 False] p by auto
  have nf: "o1 \<noteq> OutOfFuel"
    using make_env_not_out_of_fuel [of env vis path ?st0] p by simp
  show ?thesis
  proof (cases o1)
    case (Returns u)
    then have "evaluate fuel env Controller its ets trials vis path w
                 = (Raises (Exception not_subclass_message), s1)"
      using p assms by (simp add: evaluate_def make_controller_def)
    then show ?thesis using t p Returns by simp
  next
    case (Raises e)
    then have "evaluate fuel env Controller its ets trials vis path w = (Raises e, s1)"
      using p by (simp add: evaluate_def)
    then show ?thesis using t p Raises by simp
  next
    case OutOfFuel
    then show ?thesis using nf by simp
  qed
qed

text \<open>The theorem at a class that is not a subclass of \<^verbatim>\<open>BasePolicy\<close>.\<close>

theorem not_subclass_fails_at_construction_witness:
  "fst (evaluate 3 (demo_env 1) (demo_controller False None) (TInt 5) 10 1 True ''g''
          demo_start) = Raises (Exception not_subclass_message)
   \<and> set (trace (snd (evaluate 3 (demo_env 1) (demo_controller False None) (TInt 5) 10 1
                       True ''g'' demo_start)))
       \<subseteq> {GymMake, SetGoalsDatasetPath ''g'', Render}"
proof -
  let ?st0 = "\<lparr>world = demo_start, trace = [], run_scores = Map.empty,
               evaluation_state = None\<rparr>"
  have h: "\<not> issubclass_BasePolicy (demo_controller False None)"
    by (simp add: demo_controller_def)
  have m: "fst (make_env (demo_env 1) True ''g'' ?st0) = Returns ()"
    by (simp add: make_env_def call_def demo_env_def)
  from not_subclass_fails_at_construction [OF h, of 3 "demo_env 1" "TInt 5" 10 1 True "''g''" demo_start] m
  show ?thesis by auto
qed

text \<open>
  C10. In every run of \<^verbatim>\<open>evaluate\<close>, however far it gets, each call of
  \<^verbatim>\<open>controller.step\<close> has \<^verbatim>\<open>done = False\<close>, and the first call of \<^verbatim>\<open>controller.step\<close>
  after an \<^verbatim>\<open>env.reset\<close> has \<^verbatim>\<open>reward = 0\<close>.
\<close>

theorem controller_step_arguments:
  "steps_ok False (trace (snd (evaluate fuel env Controller its ets trials vis path w)))"
proof -
  let ?st0 = "\<lparr>world = w, trace = [], run_scores = Map.empty, evaluation_state = None\<rparr>"
  obtain o1 st1 where p1: "make_env env vis path ?st0 = (o1, st1)"
    by (cases "make_env env vis path ?st0")
  obtain o2 st2 where p2: "make_controller env Controller its ets trials st1 = (o2, st2)"
    by (cases "make_controller env Controller its ets trials st1")
  obtain o3 st3 where p3: "intrinsic_phase fuel env Controller its st2 = (o3, st3)"
    by (cases "intrinsic_phase fuel env Controller its st2")
  obtain o4 st4 where p4: "extrinsic_phase fuel env Controller trials st3 = (o4, st4)"
    by (cases "extrinsic_phase fuel env Controller trials st3")
  have s1: "steps_ok False (trace st1)"
    using make_env_inv [of env vis path ?st0 False] p1 by simp
  have s2: "steps_ok False (trace st2)"
    using make_controller_steps_ok [OF s1, of env Controller its ets trials] p2 by simp
  have s3: "steps_ok False (trace st3)"
    using intrinsic_phase_inv [of fuel env Controller its st2 False] p3 s2 by simp
  have s4: "steps_ok False (trace st4)"
    using extrinsic_phase_inv [of fuel env Controller trials st3 False] p4 s3 by simp
  show ?thesis using p1 p2 p3 p4 s1 s2 s3 s4
    by (simp add: evaluate_def split: outcome.split)
qed

text \<open>The theorem at a run with an intrinsic phase and one trial, of two steps each.\<close>

theorem controller_step_arguments_witness:
  "steps_ok False (trace (snd
      (evaluate 4 (demo_env 2) (demo_controller True None) (TInt 1) 10 1 False ''g''
         demo_start)))"
  by (rule controller_step_arguments)

end
